theory Spec2Isabelle
  imports Main "HOL-Library.Sublist"
begin

section \<open>Naming engine\<close>

text \<open>
  A Go string is a sequence of bytes, and \<^verbatim>\<open>for i, r := range s\<close> reads it as UTF-8,
  one rune at a time: \<open>i\<close> is the byte offset of the rune and \<open>r\<close> its code point. A
  string is a list of bytes (\<^typ>\<open>char\<close>), a rune is its code point, a natural number.
  \<open>DecodeRune\<close> is \<^verbatim>\<open>utf8.DecodeRuneInString\<close>, the rune at the head of a string and
  its width in bytes: a byte that starts no well-formed encoding is read as
  \<^verbatim>\<open>utf8.RuneError\<close> (U+FFFD) of width 1. The second byte of an encoding lies between
  \<open>acceptLo\<close> and \<open>acceptHi\<close> of the first, which rules out the over-long forms, the
  surrogates and the values above U+10FFFF.
\<close>

type_synonym rune = nat

definition RuneError :: rune where
  "RuneError = 65533"

definition between :: "nat \<Rightarrow> nat \<Rightarrow> char \<Rightarrow> bool" where
  "between lo hi b \<longleftrightarrow> lo \<le> (of_char b :: nat) \<and> (of_char b :: nat) \<le> hi"

definition acceptLo :: "nat \<Rightarrow> nat" where
  "acceptLo b0 = (if b0 = 224 then 160 else if b0 = 240 then 144 else 128)"

definition acceptHi :: "nat \<Rightarrow> nat" where
  "acceptHi b0 = (if b0 = 237 then 159 else if b0 = 244 then 143 else 191)"

definition DecodeRune :: "string \<Rightarrow> rune \<times> nat" where
  "DecodeRune s =
     (case s of
        [] \<Rightarrow> (RuneError, 0)
      | b0 # rest \<Rightarrow>
          let x = (of_char b0 :: nat) in
          if x < 128 then (x, 1)
          else if 194 \<le> x \<and> x \<le> 223 then
            (case rest of
               b1 # _ \<Rightarrow>
                 if between 128 191 b1
                 then ((x - 192) * 64 + (of_char b1 - 128), 2)
                 else (RuneError, 1)
             | _ \<Rightarrow> (RuneError, 1))
          else if 224 \<le> x \<and> x \<le> 239 then
            (case rest of
               b1 # b2 # _ \<Rightarrow>
                 if between (acceptLo x) (acceptHi x) b1 \<and> between 128 191 b2
                 then ((x - 224) * 4096 + (of_char b1 - 128) * 64 + (of_char b2 - 128), 3)
                 else (RuneError, 1)
             | _ \<Rightarrow> (RuneError, 1))
          else if 240 \<le> x \<and> x \<le> 244 then
            (case rest of
               b1 # b2 # b3 # _ \<Rightarrow>
                 if between (acceptLo x) (acceptHi x) b1 \<and> between 128 191 b2 \<and>
                    between 128 191 b3
                 then ((x - 240) * 262144 + (of_char b1 - 128) * 4096 +
                       (of_char b2 - 128) * 64 + (of_char b3 - 128), 4)
                 else (RuneError, 1)
             | _ \<Rightarrow> (RuneError, 1))
          else (RuneError, 1))"

text \<open>
  \<open>EncodeRune\<close> is what \<^verbatim>\<open>strings.Builder.WriteRune\<close> appends
  (\<^verbatim>\<open>utf8.AppendRune\<close>): the UTF-8 encoding of the rune, and that of U+FFFD (the bytes
  239, 191, 189) for a surrogate or a value above U+10FFFF.
\<close>

definition EncodeRune :: "rune \<Rightarrow> string" where
  "EncodeRune r =
     (if r \<le> 127 then [char_of r]
      else if r \<le> 2047 then [char_of (192 + r div 64), char_of (128 + r mod 64)]
      else if r > 1114111 \<or> (55296 \<le> r \<and> r \<le> 57343)
      then [char_of (239::nat), char_of (191::nat), char_of (189::nat)]
      else if r \<le> 65535
      then [char_of (224 + r div 4096), char_of (128 + (r div 64) mod 64), char_of (128 + r mod 64)]
      else [char_of (240 + r div 262144), char_of (128 + (r div 4096) mod 64),
            char_of (128 + (r div 64) mod 64), char_of (128 + r mod 64)])"

text \<open>
  Package \<^verbatim>\<open>unicode\<close> is not part of the repository. Its case tables are the record
  \<open>unicode\<close>, a parameter of the functions that consult them: \<^verbatim>\<open>unicode.IsUpper\<close>,
  \<^verbatim>\<open>unicode.ToLower\<close> and \<^verbatim>\<open>unicode.ToUpper\<close> on code points.
\<close>

record unicode =
  IsUpper :: "rune \<Rightarrow> bool"
  ToLower :: "rune \<Rightarrow> rune"
  ToUpper :: "rune \<Rightarrow> rune"

text \<open>
  \<^verbatim>\<open>strings.HasSuffix(s, suffix)\<close> is
  \<^verbatim>\<open>len(s) >= len(suffix) && s[len(s)-len(suffix):] == suffix\<close>, and
  \<^verbatim>\<open>strings.TrimSuffix\<close> cuts the suffix off when it is there; both work on bytes.
\<close>

definition HasSuffix :: "string \<Rightarrow> string \<Rightarrow> bool" where
  "HasSuffix s suf \<longleftrightarrow>
     length s \<ge> length suf \<and> drop (length s - length suf) s = suf"

definition TrimSuffix :: "string \<Rightarrow> string \<Rightarrow> string" where
  "TrimSuffix s suf = (if HasSuffix s suf then take (length s - length suf) s else s)"

text \<open>
  \<^verbatim>\<open>toSnakeCase\<close>: the loop carries the byte offset \<open>i\<close> of the rune at the head of
  what is left of the string, and the builder \<open>result\<close>. An upper-case rune is written
  lower-cased, after an underscore unless it is the first rune.
\<close>

fun toSnakeCase_loop :: "unicode \<Rightarrow> nat \<Rightarrow> string \<Rightarrow> string \<Rightarrow> string" where
  "toSnakeCase_loop U i result [] = result"
| "toSnakeCase_loop U i result (b # bs) =
     (let r = fst (DecodeRune (b # bs));
          size = snd (DecodeRune (b # bs));
          rest = drop (size - 1) bs
      in if IsUpper U r
         then (if i > 0
               then toSnakeCase_loop U (i + size)
                      (result @ EncodeRune (of_char CHR ''_'') @ EncodeRune (ToLower U r)) rest
               else toSnakeCase_loop U (i + size) (result @ EncodeRune (ToLower U r)) rest)
         else toSnakeCase_loop U (i + size) (result @ EncodeRune r) rest)"

definition toSnakeCase :: "unicode \<Rightarrow> string \<Rightarrow> string" where
  "toSnakeCase U s = toSnakeCase_loop U 0 [] s"

text \<open>
  \<^verbatim>\<open>toCamelCase\<close>: the loop carries the flag \<open>nextUpper\<close> and the builder. An
  underscore is dropped and raises the flag; the rune after it is written upper-cased.
\<close>

fun toCamelCase_loop :: "unicode \<Rightarrow> bool \<Rightarrow> string \<Rightarrow> string \<Rightarrow> string" where
  "toCamelCase_loop U nextUpper result [] = result"
| "toCamelCase_loop U nextUpper result (b # bs) =
     (let r = fst (DecodeRune (b # bs));
          size = snd (DecodeRune (b # bs));
          rest = drop (size - 1) bs
      in if r = of_char CHR ''_'' then toCamelCase_loop U True result rest
         else if nextUpper then toCamelCase_loop U False (result @ EncodeRune (ToUpper U r)) rest
         else toCamelCase_loop U nextUpper (result @ EncodeRune r) rest)"

definition toCamelCase :: "unicode \<Rightarrow> string \<Rightarrow> string" where
  "toCamelCase U s = toCamelCase_loop U False [] s"

definition pluralize :: "string \<Rightarrow> string" where
  "pluralize s =
     (if HasSuffix s ''y'' then TrimSuffix s ''y'' @ ''ies''
      else if HasSuffix s ''s'' \<or> HasSuffix s ''x'' \<or> HasSuffix s ''z'' \<or>
              HasSuffix s ''ch'' \<or> HasSuffix s ''sh''
      then s @ ''es''
      else s @ ''s'')"

text \<open>
  What is known of the tables of package \<^verbatim>\<open>unicode\<close> on the ASCII range, the runes
  below 128: the upper-case letters are \<^verbatim>\<open>A\<close> to \<^verbatim>\<open>Z\<close> (65 to 90), the
  lower-case letters \<^verbatim>\<open>a\<close> to \<^verbatim>\<open>z\<close> (97 to 122), 32 above, and no other rune
  there has case. \<open>asciiTables U\<close> says that the tables \<open>U\<close> are such; it says nothing of
  them above 127. There the package has upper-case runes without a lower-case form, such as
  U+03D2 (978, encoded by the bytes CF 92), and upper-case runes whose lower-case form is an
  ASCII letter, such as the Kelvin sign U+212A (8490), which becomes \<^verbatim>\<open>k\<close> (107).
  \<open>sampleTables\<close> are tables that are as the package's on the ASCII range and on these two
  runes; they serve to evaluate the functions on names made of such runes.
\<close>

definition isASCII :: "char \<Rightarrow> bool" where
  "isASCII c \<longleftrightarrow> (of_char c :: nat) < 128"

definition asciiUpper :: "rune \<Rightarrow> bool" where
  "asciiUpper r \<longleftrightarrow> 65 \<le> r \<and> r \<le> 90"

definition asciiLower :: "rune \<Rightarrow> bool" where
  "asciiLower r \<longleftrightarrow> 97 \<le> r \<and> r \<le> 122"

definition asciiTables :: "unicode \<Rightarrow> bool" where
  "asciiTables U \<longleftrightarrow>
     (\<forall>r<128. IsUpper U r = asciiUpper r \<and>
               ToLower U r = (if asciiUpper r then r + 32 else r) \<and>
               ToUpper U r = (if asciiLower r then r - 32 else r))"

definition sampleTables :: unicode where
  "sampleTables =
     \<lparr>IsUpper = (\<lambda>r. asciiUpper r \<or> r = 978 \<or> r = 8490),
      ToLower = (\<lambda>r. if asciiUpper r then r + 32 else if r = 8490 then 107 else r),
      ToUpper = (\<lambda>r. if asciiLower r then r - 32 else r)\<rparr>"

text \<open>
  The first byte lower-cased when it is an ASCII capital, the rest as it is: what a round
  trip leaves of an ASCII name.
\<close>

definition asciiToLower :: "char \<Rightarrow> char" where
  "asciiToLower c = (if asciiUpper (of_char c) then char_of (of_char c + 32 :: nat) else c)"

definition asciiToUpper :: "char \<Rightarrow> char" where
  "asciiToUpper c = (if asciiLower (of_char c) then char_of (of_char c - 32 :: nat) else c)"

definition lowerFirst :: "string \<Rightarrow> string" where
  "lowerFirst s = (case s of [] \<Rightarrow> [] | c # cs \<Rightarrow> asciiToLower c # cs)"

section \<open>Type descriptors\<close>

text \<open>
  Package \<^verbatim>\<open>reflect\<close> is not part of the repository. A \<^verbatim>\<open>reflect.Type\<close> is
  an opaque handle \<open>'ty\<close>, and the methods the code calls on it are the fields of the
  record \<open>reflect\<close>, a parameter of every function that inspects a type. A type may reach
  itself through a slice, a pointer or a map (\<^verbatim>\<open>User\<close> has \<^verbatim>\<open>Posts []Post\<close>
  and \<^verbatim>\<open>Post\<close> has \<^verbatim>\<open>User User\<close>), which a handle allows.
\<close>

text \<open>The kinds of \<^verbatim>\<open>reflect.Kind\<close>; \<open>Int_Kind\<close> is \<^verbatim>\<open>reflect.Int\<close>.\<close>

datatype Kind =
    Invalid | Bool | Int_Kind | Int8 | Int16 | Int32 | Int64
  | Uint | Uint8 | Uint16 | Uint32 | Uint64 | Uintptr
  | Float32 | Float64 | Complex64 | Complex128
  | Array | Chan | Func | Interface | Map | Ptr | Slice | String | Struct | UnsafePointer

text \<open>
  A struct tag is the list of its \<^verbatim>\<open>key:"value"\<close> pairs; \<^verbatim>\<open>Tag.Get\<close>
  returns the empty string for a key that is not there.
\<close>

type_synonym StructTag = "(string \<times> string) list"

definition Get :: "StructTag \<Rightarrow> string \<Rightarrow> string" where
  "Get tag key = (case map_of tag key of None \<Rightarrow> [] | Some v \<Rightarrow> v)"

record 'ty StructField =
  sfName :: string
  sfTag :: StructTag
  sfType :: 'ty

text \<open>
  \<open>TypeFields\<close> stands for \<^verbatim>\<open>NumField\<close> and \<^verbatim>\<open>Field(i)\<close>: the declared
  fields in order. \<open>TypeFieldByName\<close> is \<open>None\<close> where \<^verbatim>\<open>FieldByName\<close> reports
  that no field was found (it then returns a zero \<^verbatim>\<open>StructField\<close>, whose
  \<^verbatim>\<open>Type\<close> is nil).
\<close>

record 'ty reflect =
  TypeKind :: "'ty \<Rightarrow> Kind"
  TypeName :: "'ty \<Rightarrow> string"
  TypeString :: "'ty \<Rightarrow> string"
  TypeElem :: "'ty \<Rightarrow> 'ty"
  TypeKey :: "'ty \<Rightarrow> 'ty"
  TypeFields :: "'ty \<Rightarrow> 'ty StructField list"
  TypeFieldByName :: "'ty \<Rightarrow> string \<Rightarrow> 'ty StructField option"

section \<open>Model metadata\<close>

record 'ty FieldInfo =
  Name :: string
  JSONName :: string
  FieldType :: 'ty
  IsID :: bool
  OmitEmpty :: bool

record ForeignKeyInfo =
  FieldName :: string
  RelatedModel :: string
  RelatedField :: string
  RelationshipID :: string

record 'ty ModelInfo =
  Type :: 'ty
  Fields :: "'ty FieldInfo list"
  ForeignKeys :: "ForeignKeyInfo list"
  ResourceName :: string
  PluralName :: string

text \<open>
  \<^verbatim>\<open>strings.Split(jsonTag, ",")[0]\<close> is the part of the tag before its first comma
  (the whole tag when it has none); \<^verbatim>\<open>strings.Contains\<close> looks for a substring.
\<close>

definition Split_0 :: "string \<Rightarrow> string" where
  "Split_0 s = takeWhile (\<lambda>c. c \<noteq> CHR '','') s"

fun Contains :: "string \<Rightarrow> string \<Rightarrow> bool" where
  "Contains [] substr = (substr = [])"
| "Contains (c # cs) substr = (prefix substr (c # cs) \<or> Contains cs substr)"

definition isBasicType :: "'ty reflect \<Rightarrow> 'ty \<Rightarrow> bool" where
  "isBasicType R t =
     (if TypeString R t = ''time.Time'' then True
      else TypeKind R t \<in> {Bool, Int_Kind, Int8, Int16, Int32, Int64,
             Uint, Uint8, Uint16, Uint32, Uint64, Float32, Float64, String})"

text \<open>
  The body of the field loop, which \<^verbatim>\<open>AnalyzeModel\<close> and \<^verbatim>\<open>RegisterModel\<close>
  share word for word. A field without a usable \<^verbatim>\<open>json\<close> tag is skipped
  (\<^verbatim>\<open>continue\<close>). Rule A is the nested-struct test, rule B the test for an unsigned
  field whose name ends in \<^verbatim>\<open>ID\<close>; rule B leaves \<open>RelatedField\<close> at the zero value
  of a Go string, rule A does the same with \<open>RelationshipID\<close>.
\<close>

definition processField :: "'ty reflect \<Rightarrow> 'ty ModelInfo \<Rightarrow> 'ty StructField \<Rightarrow> 'ty ModelInfo" where
  "processField R modelInfo field =
     (let jsonTag = Get (sfTag field) ''json'' in
      if jsonTag = [] \<or> jsonTag = ''-'' then modelInfo
      else
        let jsonName = Split_0 jsonTag;
            omitEmpty = Contains jsonTag ''omitempty'';
            fieldInfo = \<lparr>Name = sfName field, JSONName = jsonName, FieldType = sfType field,
                         IsID = (sfName field = ''ID'' \<or> HasSuffix (sfName field) ''ID''),
                         OmitEmpty = omitEmpty\<rparr>;
            m1 = modelInfo\<lparr>Fields := Fields modelInfo @ [fieldInfo]\<rparr>;
            m2 = (if TypeKind R (sfType field) = Struct \<and> \<not> isBasicType R (sfType field)
                  then m1\<lparr>ForeignKeys := ForeignKeys m1 @
                         [\<lparr>FieldName = sfName field,
                           RelatedModel = TypeName R (sfType field),
                           RelatedField = ''ID'',
                           RelationshipID = []\<rparr>]\<rparr>
                  else m1)
        in if HasSuffix (sfName field) ''ID'' \<and> TypeKind R (sfType field) = Uint
           then m2\<lparr>ForeignKeys := ForeignKeys m2 @
                  [\<lparr>FieldName = sfName field,
                    RelatedModel = TrimSuffix (sfName field) ''ID'',
                    RelatedField = [],
                    RelationshipID = sfName field\<rparr>]\<rparr>
           else m2)"

datatype error = ModelMustBeStruct Kind | NilTypePanic

text \<open>
  \<open>model\<close> is \<^verbatim>\<open>reflect.TypeOf(model)\<close>, which is nil (\<open>None\<close>) for a nil
  interface value; calling \<^verbatim>\<open>Kind\<close> on it panics. \<open>derefModelType\<close> is the common
  start of \<^verbatim>\<open>AnalyzeModel\<close> and \<^verbatim>\<open>RegisterModel\<close>.
\<close>

definition derefModelType :: "'ty reflect \<Rightarrow> 'ty option \<Rightarrow> error + 'ty" where
  "derefModelType R model =
     (case model of
        None \<Rightarrow> Inl NilTypePanic
      | Some t \<Rightarrow>
          let modelType = (if TypeKind R t = Ptr then TypeElem R t else t)
          in if TypeKind R modelType \<noteq> Struct
             then Inl (ModelMustBeStruct (TypeKind R modelType))
             else Inr modelType)"

definition buildModelInfo :: "'ty reflect \<Rightarrow> 'ty \<Rightarrow> string \<Rightarrow> 'ty ModelInfo" where
  "buildModelInfo R modelType resourceName =
     foldl (processField R)
       \<lparr>Type = modelType, Fields = [], ForeignKeys = [],
        ResourceName = resourceName, PluralName = pluralize resourceName\<rparr>
       (TypeFields R modelType)"

definition AnalyzeModel ::
  "unicode \<Rightarrow> 'ty reflect \<Rightarrow> 'ty option \<Rightarrow> error + 'ty ModelInfo" where
  "AnalyzeModel U R model =
     (case derefModelType R model of
        Inl e \<Rightarrow> Inl e
      | Inr modelType \<Rightarrow> Inr (buildModelInfo R modelType (toSnakeCase U (TypeName R modelType))))"

section \<open>The persistence and transport collaborators\<close>

text \<open>
  gorm and gin are not part of the repository. The database is the record of the answers
  it gives to the calls the handlers make: \<open>First\<close> takes the type of the instance, the
  \<^verbatim>\<open>Where\<close> clauses chained before it and the inline conditions, \<open>Find\<close> the type of
  the elements and the \<^verbatim>\<open>Where\<close> clauses, \<open>Save\<close> the instance. An instance
  (\<^verbatim>\<open>reflect.New(modelInfo.Type).Interface()\<close> once filled) is a value of \<open>'inst\<close>.
\<close>

datatype arg = ArgString string | ArgUint64 nat

type_synonym clause = "string \<times> arg list"

datatype gorm_error = ErrRecordNotFound | ErrOther string

fun Error :: "gorm_error \<Rightarrow> string" where
  "Error ErrRecordNotFound = ''record not found''"
| "Error (ErrOther msg) = msg"

record ('ty, 'inst) gorm_DB =
  First :: "'ty \<Rightarrow> clause list \<Rightarrow> arg list \<Rightarrow> gorm_error + 'inst"
  Find :: "'ty \<Rightarrow> clause list \<Rightarrow> gorm_error + 'inst list"
  Save :: "'inst \<Rightarrow> gorm_error + 'inst"

text \<open>
  The request context: the path parameters, and \<^verbatim>\<open>ShouldBindJSON\<close>, which lays the
  request body over an instance or fails with a message.
\<close>

record 'inst Context =
  Param :: "string \<Rightarrow> string"
  ShouldBindJSON :: "'inst \<Rightarrow> string + 'inst"

text \<open>
  What a handler did: the response it wrote (\<^verbatim>\<open>c.JSON(status, body)\<close>), or a panic,
  and the calls it made to the collaborators, in order.
\<close>

datatype 'inst body = ErrorBody string | Instance 'inst | Instances "'inst list"

datatype 'inst response = JSON nat "'inst body" | Panic

datatype ('ty, 'inst) call =
    CallFirst 'ty "clause list" "arg list"
  | CallFind 'ty "clause list"
  | CallShouldBindJSON 'inst
  | CallSave 'inst

definition StatusOK :: nat where "StatusOK = 200"
definition StatusBadRequest :: nat where "StatusBadRequest = 400"
definition StatusNotFound :: nat where "StatusNotFound = 404"
definition StatusInternalServerError :: nat where "StatusInternalServerError = 500"

section \<open>The API generator\<close>

text \<open>
  A handler is a closure over the model's metadata (and the foreign key, for a relationship
  route). The router is the list of the bindings gin holds, in the order of the calls to
  \<^verbatim>\<open>Router.GET\<close>, \<^verbatim>\<open>POST\<close>, \<^verbatim>\<open>PUT\<close> and \<^verbatim>\<open>DELETE\<close> that
  made them. A Go \<^verbatim>\<open>map[string]bool\<close> reads \<^verbatim>\<open>false\<close> at a key it does not
  hold.
\<close>

datatype Method = GET | POST | PUT | DELETE

datatype 'ty HandlerFunc =
    ListHandler "'ty ModelInfo"
  | GetHandler "'ty ModelInfo"
  | CreateHandler "'ty ModelInfo"
  | UpdateHandler "'ty ModelInfo"
  | DeleteHandler "'ty ModelInfo"
  | RelatedHandler "'ty ModelInfo" ForeignKeyInfo

type_synonym 'ty Route = "Method \<times> string \<times> 'ty HandlerFunc"

record ('ty, 'inst) APIGenerator =
  DB :: "('ty, 'inst) gorm_DB"
  Router :: "'ty Route list"
  Models :: "string \<rightharpoonup> 'ty ModelInfo"
  RegisteredPaths :: "string \<rightharpoonup> bool"

definition lookupBool :: "(string \<rightharpoonup> bool) \<Rightarrow> string \<Rightarrow> bool" where
  "lookupBool m k = (case m k of None \<Rightarrow> False | Some b \<Rightarrow> b)"

definition New :: "('ty, 'inst) gorm_DB \<Rightarrow> 'ty Route list \<Rightarrow> ('ty, 'inst) APIGenerator" where
  "New db router = \<lparr>DB = db, Router = router, Models = Map.empty, RegisteredPaths = Map.empty\<rparr>"

definition RegisterModel ::
  "unicode \<Rightarrow> 'ty reflect \<Rightarrow> ('ty, 'inst) APIGenerator \<Rightarrow> 'ty option \<Rightarrow> string \<Rightarrow>
     error + ('ty, 'inst) APIGenerator" where
  "RegisterModel U R g model resourceName =
     (case derefModelType R model of
        Inl e \<Rightarrow> Inl e
      | Inr modelType \<Rightarrow>
          let resourceName' = (if resourceName = [] then toSnakeCase U (TypeName R modelType)
                               else resourceName);
              modelInfo = buildModelInfo R modelType resourceName'
          in Inr (g\<lparr>Models := (Models g)(TypeName R modelType \<mapsto> modelInfo)\<rparr>))"

text \<open>
  \<^verbatim>\<open>Router\<close> is a \<^verbatim>\<open>*gin.Engine\<close>. gin keeps the routes of each method apart and
  panics when handlers are requested for a method and path that have some already
  (\<^verbatim>\<open>handlers are already registered for path\<close>). \<open>hasRoute router method path\<close> says that
  the router holds a binding of the method and the path. \<open>handle\<close> is a call to
  \<^verbatim>\<open>Router.GET\<close>, \<^verbatim>\<open>POST\<close>, \<^verbatim>\<open>PUT\<close> or \<^verbatim>\<open>DELETE\<close>: it panics on a
  method and path that are bound, and adds the binding otherwise. Nothing in the repository
  recovers from a panic, so it ends the run: \<open>andThen\<close> goes on with the next statement
  only after a call that returned.

  gin refuses other requests too, those whose wildcard segments clash with the routes it
  holds. The paths requested here have the one wildcard \<^verbatim>\<open>:id\<close>, right after the
  plural name, so that such a clash needs a name that holds \<^verbatim>\<open>/\<close>, \<^verbatim>\<open>:\<close> or
  \<^verbatim>\<open>*\<close>; the model leaves these refusals out. What is proved below of a run that
  returns, and of the panic on a bound method and path, does not depend on them.
\<close>

datatype gin_panic = HandlersAlreadyRegistered Method string

definition hasRoute :: "'ty Route list \<Rightarrow> Method \<Rightarrow> string \<Rightarrow> bool" where
  "hasRoute router method path \<longleftrightarrow> list_ex (\<lambda>r. fst r = method \<and> fst (snd r) = path) router"

definition handle ::
  "Method \<Rightarrow> string \<Rightarrow> 'ty HandlerFunc \<Rightarrow> ('ty, 'inst) APIGenerator \<Rightarrow>
     gin_panic + ('ty, 'inst) APIGenerator" where
  "handle method path h g =
     (if hasRoute (Router g) method path then Inl (HandlersAlreadyRegistered method path)
      else Inr (g\<lparr>Router := Router g @ [(method, path, h)]\<rparr>))"

definition andThen :: "gin_panic + 'a \<Rightarrow> ('a \<Rightarrow> gin_panic + 'b) \<Rightarrow> gin_panic + 'b" where
  "andThen r f = (case r of Inl p \<Rightarrow> Inl p | Inr x \<Rightarrow> f x)"

text \<open>
  \<^verbatim>\<open>basePath\<close> is \<^verbatim>\<open>fmt.Sprintf("/api/%s", modelInfo.PluralName)\<close> and
  \<^verbatim>\<open>relatedPath\<close> is
  \<^verbatim>\<open>fmt.Sprintf("%s/:id/%s", basePath, toSnakeCase(fk.RelatedModel))\<close>.
\<close>

definition basePath :: "'ty ModelInfo \<Rightarrow> string" where
  "basePath modelInfo = ''/api/'' @ PluralName modelInfo"

definition relatedPath :: "unicode \<Rightarrow> string \<Rightarrow> ForeignKeyInfo \<Rightarrow> string" where
  "relatedPath U base fk = base @ ''/:id/'' @ toSnakeCase U (RelatedModel fk)"

text \<open>
  The body of the loop over \<^verbatim>\<open>modelInfo.ForeignKeys\<close> in \<^verbatim>\<open>generateModelAPI\<close>:
  the path is recorded in \<open>RegisteredPaths\<close> after \<^verbatim>\<open>Router.GET\<close> has returned.
  \<open>bindForeignKeys\<close> is the loop.
\<close>

definition bindRelated ::
  "unicode \<Rightarrow> string \<Rightarrow> 'ty ModelInfo \<Rightarrow> ('ty, 'inst) APIGenerator \<Rightarrow> ForeignKeyInfo \<Rightarrow>
     gin_panic + ('ty, 'inst) APIGenerator" where
  "bindRelated U base modelInfo g fk =
     (if RelatedModel fk \<noteq> [] then
        if \<not> lookupBool (RegisteredPaths g) (relatedPath U base fk)
        then andThen (handle GET (relatedPath U base fk) (RelatedHandler modelInfo fk) g)
               (\<lambda>g'. Inr (g'\<lparr>RegisteredPaths :=
                                (RegisteredPaths g')(relatedPath U base fk \<mapsto> True)\<rparr>))
        else Inr g
      else Inr g)"

fun bindForeignKeys ::
  "unicode \<Rightarrow> string \<Rightarrow> 'ty ModelInfo \<Rightarrow> ('ty, 'inst) APIGenerator \<Rightarrow> ForeignKeyInfo list \<Rightarrow>
     gin_panic + ('ty, 'inst) APIGenerator" where
  "bindForeignKeys U base modelInfo g [] = Inr g"
| "bindForeignKeys U base modelInfo g (fk # fks) =
     andThen (bindRelated U base modelInfo g fk)
       (\<lambda>g'. bindForeignKeys U base modelInfo g' fks)"

text \<open>The five CRUD bindings of a model, in the order in which they are requested.\<close>

definition bindCRUD :: "string \<Rightarrow> 'ty ModelInfo \<Rightarrow> 'ty Route list" where
  "bindCRUD base modelInfo =
     [(GET, base, ListHandler modelInfo),
      (GET, base @ ''/:id'', GetHandler modelInfo),
      (POST, base, CreateHandler modelInfo),
      (PUT, base @ ''/:id'', UpdateHandler modelInfo),
      (DELETE, base @ ''/:id'', DeleteHandler modelInfo)]"

definition generateModelAPI ::
  "unicode \<Rightarrow> ('ty, 'inst) APIGenerator \<Rightarrow> 'ty ModelInfo \<Rightarrow>
     gin_panic + ('ty, 'inst) APIGenerator" where
  "generateModelAPI U g modelInfo =
     (let base = basePath modelInfo in
      andThen (handle GET base (ListHandler modelInfo) g) (\<lambda>g1.
      andThen (handle GET (base @ ''/:id'') (GetHandler modelInfo) g1) (\<lambda>g2.
      andThen (handle POST base (CreateHandler modelInfo) g2) (\<lambda>g3.
      andThen (handle PUT (base @ ''/:id'') (UpdateHandler modelInfo) g3) (\<lambda>g4.
      andThen (handle DELETE (base @ ''/:id'') (DeleteHandler modelInfo) g4) (\<lambda>g5.
      bindForeignKeys U base modelInfo g5 (ForeignKeys modelInfo)))))))"

text \<open>
  \<^verbatim>\<open>GenerateAPI\<close> ranges over the map \<^verbatim>\<open>g.Models\<close>, in an order Go does not fix:
  \<open>keys\<close> is the order of one run, an enumeration of the keys of the map.
\<close>

fun generateAll ::
  "unicode \<Rightarrow> (string \<rightharpoonup> 'ty ModelInfo) \<Rightarrow> ('ty, 'inst) APIGenerator \<Rightarrow> string list \<Rightarrow>
     gin_panic + ('ty, 'inst) APIGenerator" where
  "generateAll U models g [] = Inr g"
| "generateAll U models g (k # keys) =
     (case models k of
        None \<Rightarrow> generateAll U models g keys
      | Some modelInfo \<Rightarrow>
          andThen (generateModelAPI U g modelInfo) (\<lambda>g'. generateAll U models g' keys))"

definition GenerateAPI ::
  "unicode \<Rightarrow> string list \<Rightarrow> ('ty, 'inst) APIGenerator \<Rightarrow> gin_panic + ('ty, 'inst) APIGenerator" where
  "GenerateAPI U keys g = generateAll U (Models g) g keys"

section \<open>Request handlers\<close>

text \<open>
  \<^verbatim>\<open>strconv.ParseUint(id, 10, 64)\<close>: a non-empty string of decimal digits, without
  sign or underscore, whose value fits 64 bits.
\<close>

definition isDigit :: "char \<Rightarrow> bool" where
  "isDigit c \<longleftrightarrow> 48 \<le> (of_char c :: nat) \<and> (of_char c :: nat) \<le> 57"

definition ParseUint :: "string \<Rightarrow> nat option" where
  "ParseUint s =
     (if s = [] \<or> \<not> list_all isDigit s then None
      else let n = foldl (\<lambda>acc c. 10 * acc + (of_char c - 48)) 0 s
           in if n < 2 ^ 64 then Some n else None)"

text \<open>
  The look-up of a record by its path identifier, as \<^verbatim>\<open>getHandler\<close>,
  \<^verbatim>\<open>updateHandler\<close> and \<^verbatim>\<open>deleteHandler\<close> make it:
  \<^verbatim>\<open>Where("id = ?", id).First(instance)\<close> when the field \<^verbatim>\<open>ID\<close> of the model
  is a string, \<^verbatim>\<open>First(instance, id)\<close> otherwise. The result is the list of
  \<^verbatim>\<open>Where\<close> clauses and the list of inline conditions.
\<close>

definition byID :: "'ty reflect \<Rightarrow> 'ty StructField \<Rightarrow> string \<Rightarrow> clause list \<times> arg list" where
  "byID R idField ident =
     (if TypeKind R (sfType idField) = String
      then ([(''id = ?'', [ArgString ident])], [])
      else ([], [ArgString ident]))"

text \<open>
  \<^verbatim>\<open>updateHandler\<close>. The handler reads the path identifier, looks the record up, binds
  the body over the record found and saves it; the second component lists the calls made.
  \<^verbatim>\<open>idField.Type.Kind()\<close> on the zero \<^verbatim>\<open>StructField\<close> of a model without a
  field \<^verbatim>\<open>ID\<close> dereferences nil.
\<close>

definition updateHandler ::
  "'ty reflect \<Rightarrow> ('ty, 'inst) APIGenerator \<Rightarrow> 'ty ModelInfo \<Rightarrow> 'inst Context \<Rightarrow>
     'inst response \<times> ('ty, 'inst) call list" where
  "updateHandler R g modelInfo c =
     (let id = Param c ''id'' in
      if id = [] then (JSON StatusBadRequest (ErrorBody ''ID is required''), [])
      else
        (case TypeFieldByName R (Type modelInfo) ''ID'' of
           None \<Rightarrow> (Panic, [])
         | Some idField \<Rightarrow>
             (let clauses = fst (byID R idField id);
                  conds = snd (byID R idField id);
                  calls1 = [CallFirst (Type modelInfo) clauses conds]
              in (case First (DB g) (Type modelInfo) clauses conds of
                    Inl err \<Rightarrow>
                      (if err = ErrRecordNotFound
                       then (JSON StatusNotFound (ErrorBody ''Record not found''), calls1)
                       else (JSON StatusInternalServerError (ErrorBody (Error err)), calls1))
                  | Inr instance \<Rightarrow>
                      (let calls2 = calls1 @ [CallShouldBindJSON instance]
                       in (case ShouldBindJSON c instance of
                             Inl msg \<Rightarrow> (JSON StatusBadRequest (ErrorBody msg), calls2)
                           | Inr bound \<Rightarrow>
                               (let calls3 = calls2 @ [CallSave bound]
                                in (case Save (DB g) bound of
                                      Inl err \<Rightarrow>
                                        (JSON StatusInternalServerError (ErrorBody (Error err)),
                                         calls3)
                                    | Inr saved \<Rightarrow>
                                        (JSON StatusOK (Instance saved), calls3)))))))))"

text \<open>
  \<^verbatim>\<open>relatedHandler\<close>. The parent is looked up by primary key; the related model is read
  from \<^verbatim>\<open>g.Models\<close> when the request is served; the related records are filtered by the
  column \<open>RelationshipID\<close> with the parsed identifier when the foreign key has one, and by
  the clause made of the parent's resource name and \<^verbatim>\<open>ID = ?\<close> with the raw identifier
  otherwise.
\<close>

definition relatedHandler ::
  "('ty, 'inst) APIGenerator \<Rightarrow> 'ty ModelInfo \<Rightarrow> ForeignKeyInfo \<Rightarrow> 'inst Context \<Rightarrow>
     'inst response \<times> ('ty, 'inst) call list" where
  "relatedHandler g modelInfo fk c =
     (let id = Param c ''id'' in
      if id = [] then (JSON StatusBadRequest (ErrorBody ''ID is required''), [])
      else
        (let calls1 = [CallFirst (Type modelInfo) [] [ArgString id]]
         in (case First (DB g) (Type modelInfo) [] [ArgString id] of
               Inl err \<Rightarrow>
                 (if err = ErrRecordNotFound
                  then (JSON StatusNotFound (ErrorBody ''Parent record not found''), calls1)
                  else (JSON StatusInternalServerError (ErrorBody (Error err)), calls1))
             | Inr parentInstance \<Rightarrow>
                 (case Models g (RelatedModel fk) of
                    None \<Rightarrow>
                      (JSON StatusInternalServerError
                         (ErrorBody (''Related model '' @ RelatedModel fk @ '' not registered'')),
                       calls1)
                  | Some relatedModelInfo \<Rightarrow>
                      (let query =
                             (if RelationshipID fk \<noteq> []
                              then (case ParseUint id of
                                      None \<Rightarrow> None
                                    | Some idVal \<Rightarrow>
                                        Some [(RelationshipID fk, [ArgUint64 idVal])])
                              else Some [(ResourceName modelInfo @ ''ID = ?'', [ArgString id])])
                       in (case query of
                             None \<Rightarrow>
                               (JSON StatusBadRequest (ErrorBody ''Invalid ID format''), calls1)
                           | Some clauses \<Rightarrow>
                               (let calls2 = calls1 @ [CallFind (Type relatedModelInfo) clauses]
                                in (case Find (DB g) (Type relatedModelInfo) clauses of
                                      Inl err \<Rightarrow>
                                        (JSON StatusInternalServerError (ErrorBody (Error err)),
                                         calls2)
                                    | Inr results \<Rightarrow>
                                        (JSON StatusOK (Instances results), calls2)))))))))"

section \<open>Schema generator\<close>

text \<open>
  A schema document is a Go \<^verbatim>\<open>map[string]any\<close> whose values are strings, lists of
  strings and further maps. \<^verbatim>\<open>getSwaggerType\<close> calls itself on the element and field
  types, and never returns on an unregistered type that contains itself: the first number
  bounds the depth of the calls, and \<open>None\<close> says that the bound was too small.
\<close>

datatype any = AString string | AStrings "string list" | AMap "string \<Rightarrow> any option"

definition getIntegerFormat :: "'ty reflect \<Rightarrow> 'ty \<Rightarrow> string" where
  "getIntegerFormat R t =
     (if TypeKind R t = Int64 \<or> TypeKind R t = Uint64 then ''int64'' else ''int32'')"

definition getFloatFormat :: "'ty reflect \<Rightarrow> 'ty \<Rightarrow> string" where
  "getFloatFormat R t = (if TypeKind R t = Float64 then ''double'' else ''float'')"

fun getSwaggerType ::
  "'ty reflect \<Rightarrow> (string \<rightharpoonup> 'ty ModelInfo) \<Rightarrow> nat \<Rightarrow> 'ty \<Rightarrow> (string \<rightharpoonup> any) option"
and inlineProperties ::
  "'ty reflect \<Rightarrow> (string \<rightharpoonup> 'ty ModelInfo) \<Rightarrow> nat \<Rightarrow> 'ty StructField list \<Rightarrow>
     (string \<rightharpoonup> any) \<Rightarrow> (string \<rightharpoonup> any) option"
where
  "getSwaggerType R M 0 t = None"
| "getSwaggerType R M (Suc depth) t =
     (if TypeKind R t = Bool then Some [''type'' \<mapsto> AString ''boolean'']
      else if TypeKind R t \<in> {Int_Kind, Int8, Int16, Int32, Int64,
                               Uint, Uint8, Uint16, Uint32, Uint64}
      then Some [''type'' \<mapsto> AString ''integer'', ''format'' \<mapsto> AString (getIntegerFormat R t)]
      else if TypeKind R t \<in> {Float32, Float64}
      then Some [''type'' \<mapsto> AString ''number'', ''format'' \<mapsto> AString (getFloatFormat R t)]
      else if TypeKind R t = String then Some [''type'' \<mapsto> AString ''string'']
      else if TypeKind R t = Struct then
        (case M (TypeName R t) of
           Some modelInfo \<Rightarrow>
             Some [''$ref'' \<mapsto> AString (''#/definitions/'' @ TypeName R (Type modelInfo))]
         | None \<Rightarrow>
             if TypeString R t = ''time.Time''
             then Some [''type'' \<mapsto> AString ''string'', ''format'' \<mapsto> AString ''date-time'']
             else (case inlineProperties R M depth (TypeFields R t) Map.empty of
                     None \<Rightarrow> None
                   | Some properties \<Rightarrow>
                       Some [''type'' \<mapsto> AString ''object'', ''properties'' \<mapsto> AMap properties]))
      else if TypeKind R t \<in> {Slice, Array} then
        (case getSwaggerType R M depth (TypeElem R t) of
           None \<Rightarrow> None
         | Some items \<Rightarrow> Some [''type'' \<mapsto> AString ''array'', ''items'' \<mapsto> AMap items])
      else if TypeKind R t = Map then
        (case getSwaggerType R M depth (TypeElem R t) of
           None \<Rightarrow> None
         | Some elem \<Rightarrow>
             Some [''type'' \<mapsto> AString ''object'', ''additionalProperties'' \<mapsto> AMap elem])
      else if TypeKind R t = Ptr then getSwaggerType R M depth (TypeElem R t)
      else Some [''type'' \<mapsto> AString ''string''])"
| "inlineProperties R M depth [] properties = Some properties"
| "inlineProperties R M depth (field # rest) properties =
     (let jsonTag = Get (sfTag field) ''json'' in
      if jsonTag = [] \<or> jsonTag = ''-'' then inlineProperties R M depth rest properties
      else (case getSwaggerType R M depth (sfType field) of
              None \<Rightarrow> None
            | Some ft \<Rightarrow>
                inlineProperties R M depth rest (properties(Split_0 jsonTag \<mapsto> AMap ft))))"






section \<open>Generated request structs\<close>






section \<open>The example models\<close>

text \<open>
  The types of the repository's example: \<^verbatim>\<open>User\<close> with \<^verbatim>\<open>ID uint\<close>,
  \<^verbatim>\<open>Name string\<close> and \<^verbatim>\<open>Email string\<close>, and \<^verbatim>\<open>Post\<close> with
  \<^verbatim>\<open>ID uint\<close>, \<^verbatim>\<open>UserID uint\<close>, \<^verbatim>\<open>Title string\<close> and the nested
  \<^verbatim>\<open>User User\<close>, with the tags the example gives them. With \<open>withPosts\<close> the struct
  \<^verbatim>\<open>User\<close> also has the field \<^verbatim>\<open>Posts []Post\<close> of the example.
  \<^verbatim>\<open>Tag\<close> is a struct without a field \<^verbatim>\<open>ID\<close>, and \<^verbatim>\<open>Hidden\<close> a struct
  whose field \<^verbatim>\<open>ID\<close> has the tag \<^verbatim>\<open>json:"-,"\<close>.
\<close>

datatype example_type =
  T_uint | T_string | T_User | T_Post | T_Post_slice | T_Tag | T_Hidden | T_Post_ptr

definition userFields :: "bool \<Rightarrow> example_type StructField list" where
  "userFields withPosts =
     [\<lparr>sfName = ''ID'', sfTag = [(''json'', ''id''), (''gorm'', ''primaryKey'')], sfType = T_uint\<rparr>,
      \<lparr>sfName = ''Name'', sfTag = [(''json'', ''name''), (''binding'', ''required'')],
       sfType = T_string\<rparr>,
      \<lparr>sfName = ''Email'', sfTag = [(''json'', ''email''), (''binding'', ''required'')],
       sfType = T_string\<rparr>] @
     (if withPosts
      then [\<lparr>sfName = ''Posts'',
             sfTag = [(''json'', ''posts,omitempty''), (''gorm'', ''foreignKey:UserID'')],
             sfType = T_Post_slice\<rparr>]
      else [])"

definition postFields :: "example_type StructField list" where
  "postFields =
     [\<lparr>sfName = ''ID'', sfTag = [(''json'', ''id''), (''gorm'', ''primaryKey'')], sfType = T_uint\<rparr>,
      \<lparr>sfName = ''UserID'', sfTag = [(''json'', ''user_id'')], sfType = T_uint\<rparr>,
      \<lparr>sfName = ''Title'', sfTag = [(''json'', ''title''), (''binding'', ''required'')],
       sfType = T_string\<rparr>,
      \<lparr>sfName = ''User'',
       sfTag = [(''json'', ''user,omitempty''), (''gorm'', ''foreignKey:UserID'')],
       sfType = T_User\<rparr>]"

definition tagFields :: "example_type StructField list" where
  "tagFields = [\<lparr>sfName = ''Label'', sfTag = [(''json'', ''label'')], sfType = T_string\<rparr>]"

definition hiddenFields :: "example_type StructField list" where
  "hiddenFields =
     [\<lparr>sfName = ''ID'', sfTag = [(''json'', ''-,'')], sfType = T_uint\<rparr>,
      \<lparr>sfName = ''Label'', sfTag = [(''json'', ''label'')], sfType = T_string\<rparr>]"

fun exampleKind :: "example_type \<Rightarrow> Kind" where
  "exampleKind T_uint = Uint"
| "exampleKind T_string = String"
| "exampleKind T_Post_slice = Slice"
| "exampleKind T_Post_ptr = Ptr"
| "exampleKind _ = Struct"

fun exampleName :: "example_type \<Rightarrow> string" where
  "exampleName T_uint = ''uint''"
| "exampleName T_string = ''string''"
| "exampleName T_User = ''User''"
| "exampleName T_Post = ''Post''"
| "exampleName T_Tag = ''Tag''"
| "exampleName T_Hidden = ''Hidden''"
| "exampleName _ = []"

fun exampleString :: "example_type \<Rightarrow> string" where
  "exampleString T_uint = ''uint''"
| "exampleString T_string = ''string''"
| "exampleString T_User = ''apigen.User''"
| "exampleString T_Post = ''apigen.Post''"
| "exampleString T_Post_slice = ''[]apigen.Post''"
| "exampleString T_Post_ptr = ''*apigen.Post''"
| "exampleString T_Tag = ''apigen.Tag''"
| "exampleString T_Hidden = ''apigen.Hidden''"

fun exampleFieldList :: "bool \<Rightarrow> example_type \<Rightarrow> example_type StructField list" where
  "exampleFieldList withPosts T_User = userFields withPosts"
| "exampleFieldList withPosts T_Post = postFields"
| "exampleFieldList withPosts T_Tag = tagFields"
| "exampleFieldList withPosts T_Hidden = hiddenFields"
| "exampleFieldList withPosts _ = []"

definition exampleReflect :: "bool \<Rightarrow> example_type reflect" where
  "exampleReflect withPosts =
     \<lparr>TypeKind = exampleKind, TypeName = exampleName, TypeString = exampleString,
      TypeElem = (\<lambda>t. T_Post), TypeKey = (\<lambda>t. t),
      TypeFields = exampleFieldList withPosts,
      TypeFieldByName = (\<lambda>t name. find (\<lambda>f. sfName f = name) (exampleFieldList withPosts t))\<rparr>"

text \<open>
  The metadata \<^verbatim>\<open>RegisterModel\<close> builds for the two example types, and the three
  foreign keys of \<^verbatim>\<open>Post\<close>: rule B on \<^verbatim>\<open>ID\<close> and on \<^verbatim>\<open>UserID\<close>,
  rule A on \<^verbatim>\<open>User\<close>.
\<close>

definition userInfo :: "bool \<Rightarrow> example_type ModelInfo" where
  "userInfo withPosts = buildModelInfo (exampleReflect withPosts) T_User ''user''"

definition postInfo :: "example_type ModelInfo" where
  "postInfo = buildModelInfo (exampleReflect False) T_Post ''post''"

definition fkUserID :: ForeignKeyInfo where
  "fkUserID = \<lparr>FieldName = ''UserID'', RelatedModel = ''User'', RelatedField = [],
               RelationshipID = ''UserID''\<rparr>"

definition fkUser :: ForeignKeyInfo where
  "fkUser = \<lparr>FieldName = ''User'', RelatedModel = ''User'', RelatedField = ''ID'',
             RelationshipID = []\<rparr>"

definition fkID :: ForeignKeyInfo where
  "fkID = \<lparr>FieldName = ''ID'', RelatedModel = [], RelatedField = [], RelationshipID = ''ID''\<rparr>"

definition tagInfo :: "example_type ModelInfo" where
  "tagInfo = buildModelInfo (exampleReflect False) T_Tag ''tag''"


text \<open>
  A database that holds no record (every lookup reports \<^verbatim>\<open>ErrRecordNotFound\<close>), and
  one in which every lookup finds the record \<open>()\<close>. A request for the identifier \<open>ident\<close>
  whose body binds.
\<close>

definition emptyDB :: "(example_type, unit) gorm_DB" where
  "emptyDB = \<lparr>First = (\<lambda>t clauses conds. Inl ErrRecordNotFound),
              Find = (\<lambda>t clauses. Inr []),
              Save = (\<lambda>i. Inr i)\<rparr>"

definition fullDB :: "(example_type, unit) gorm_DB" where
  "fullDB = \<lparr>First = (\<lambda>t clauses conds. Inr ()),
             Find = (\<lambda>t clauses. Inr [()]),
             Save = (\<lambda>i. Inr i)\<rparr>"

definition request :: "string \<Rightarrow> unit Context" where
  "request ident = \<lparr>Param = (\<lambda>name. if name = ''id'' then ident else []),
                 ShouldBindJSON = (\<lambda>i. Inr i)\<rparr>"

text \<open>
  The example's set-up: \<^verbatim>\<open>New\<close>, the two calls to \<^verbatim>\<open>RegisterModel\<close>, and
  \<^verbatim>\<open>GenerateAPI\<close>, which visits the registered models in the order \<open>keys\<close>. A
  failed registration leaves the generator as it was (the example drops the error).
\<close>

definition register ::
  "unicode \<Rightarrow> 'ty reflect \<Rightarrow> 'ty \<Rightarrow> string \<Rightarrow> ('ty, 'inst) APIGenerator \<Rightarrow>
     ('ty, 'inst) APIGenerator" where
  "register U R t resourceName g =
     (case RegisterModel U R g (Some t) resourceName of Inl e \<Rightarrow> g | Inr g' \<Rightarrow> g')"

definition SetupExampleAPI ::
  "unicode \<Rightarrow> bool \<Rightarrow> (example_type, unit) gorm_DB \<Rightarrow> string list \<Rightarrow>
     gin_panic + (example_type, unit) APIGenerator" where
  "SetupExampleAPI U withPosts db keys =
     GenerateAPI U keys
       (register U (exampleReflect withPosts) T_Post ''post''
          (register U (exampleReflect withPosts) T_User ''user'' (New db [])))"

text \<open>The generator of the example after its two registrations, before any route is bound.\<close>

definition registered ::
  "bool \<Rightarrow> (example_type, unit) gorm_DB \<Rightarrow> (example_type, unit) APIGenerator" where
  "registered withPosts db =
     \<lparr>DB = db, Router = [],
      Models = [''User'' \<mapsto> userInfo withPosts, ''Post'' \<mapsto> postInfo],
      RegisteredPaths = Map.empty\<rparr>"

text \<open>The paths of the relationship routes of a router, in the order of their binding.\<close>

fun isRelated :: "'ty Route \<Rightarrow> bool" where
  "isRelated (method, path, RelatedHandler modelInfo fk) = True"
| "isRelated _ = False"

definition relatedPaths :: "'ty Route list \<Rightarrow> string list" where
  "relatedPaths router = map (\<lambda>r. fst (snd r)) (filter isRelated router)"

text \<open>
  The relationship routes of a generator are tracked when no two of them share a path and
  \<open>RegisteredPaths\<close> holds the path of each.
\<close>

definition tracked :: "('ty, 'inst) APIGenerator \<Rightarrow> bool" where
  "tracked g \<longleftrightarrow>
     distinct (relatedPaths (Router g)) \<and>
     list_all (lookupBool (RegisteredPaths g)) (relatedPaths (Router g))"

text \<open>
  The generator that the example's set-up leaves when \<^verbatim>\<open>GenerateAPI\<close> visits
  \<^verbatim>\<open>User\<close> before \<^verbatim>\<open>Post\<close>.
\<close>

definition exampleGenerated ::
  "bool \<Rightarrow> (example_type, unit) gorm_DB \<Rightarrow> (example_type, unit) APIGenerator" where
  "exampleGenerated withPosts db =
     (registered withPosts db)
       \<lparr>Router := bindCRUD ''/api/users'' (userInfo withPosts) @ bindCRUD ''/api/posts'' postInfo @
          [(GET, ''/api/posts/:id/user'', RelatedHandler postInfo fkUserID)],
        RegisteredPaths := [''/api/posts/:id/user'' \<mapsto> True]\<rparr>"

text \<open>The method and path of each binding of a router.\<close>

definition routeKeys :: "'ty Route list \<Rightarrow> (Method \<times> string) list" where
  "routeKeys router = map (\<lambda>r. (fst r, fst (snd r))) router"

text \<open>
  The generator that one run of \<^verbatim>\<open>generateModelAPI\<close> for \<^verbatim>\<open>Post\<close> leaves of
  a new one: the five CRUD routes, the relationship route, and its path recorded.
\<close>

definition postGenerated :: "(example_type, unit) APIGenerator" where
  "postGenerated =
     \<lparr>DB = emptyDB,
      Router = bindCRUD ''/api/posts'' postInfo @
        [(GET, ''/api/posts/:id/user'', RelatedHandler postInfo fkUserID)],
      Models = Map.empty,
      RegisteredPaths = [''/api/posts/:id/user'' \<mapsto> True]\<rparr>"

text \<open>The rule table of \<^verbatim>\<open>pluralize\<close>, as the specification words it.\<close>

definition pluralize_rule_table :: "string \<Rightarrow> string" where
  "pluralize_rule_table word =
     (if suffix ''y'' word then butlast word @ ''ies''
      else if suffix ''s'' word \<or> suffix ''x'' word \<or> suffix ''z'' word \<or>
              suffix ''ch'' word \<or> suffix ''sh'' word
      then word @ ''es''
      else word @ ''s'')"

section \<open>Properties of the naming engine\<close>

lemma HasSuffix_iff_suffix: "HasSuffix s suf \<longleftrightarrow> suffix suf s"
proof
  assume "HasSuffix s suf"
  then have "drop (length s - length suf) s = suf"
    by (simp add: HasSuffix_def)
  then show "suffix suf s"
    by (metis suffix_drop)
next
  assume "suffix suf s"
  then obtain w where "s = w @ suf"
    by (auto simp: suffix_def)
  then show "HasSuffix s suf"
    by (simp add: HasSuffix_def)
qed

lemma TrimSuffix_append: "TrimSuffix (w @ suf) suf = w"
  by (simp add: TrimSuffix_def HasSuffix_def)

lemma DecodeRune_ascii: "isASCII b \<Longrightarrow> DecodeRune (b # bs) = (of_char b, 1)"
  by (simp add: DecodeRune_def isASCII_def)

lemma EncodeRune_ascii: "r < 128 \<Longrightarrow> EncodeRune r = [char_of r]"
  by (simp add: EncodeRune_def)

lemma EncodeRune_byte: "isASCII c \<Longrightarrow> EncodeRune (of_char c) = [c]"
  by (simp add: EncodeRune_def isASCII_def)

lemma asciiTables_byte:
  assumes "asciiTables U" "isASCII c"
  shows "IsUpper U (of_char c) = asciiUpper (of_char c)"
    and "EncodeRune (ToLower U (of_char c)) = [asciiToLower c]"
    and "EncodeRune (ToUpper U (of_char c)) = [asciiToUpper c]"
proof -
  have lt: "(of_char c :: nat) < 128" using assms(2) by (simp add: isASCII_def)
  from assms(1) lt have t: "IsUpper U (of_char c) = asciiUpper (of_char c)"
    "ToLower U (of_char c) = (if asciiUpper (of_char c) then of_char c + 32 else of_char c)"
    "ToUpper U (of_char c) = (if asciiLower (of_char c) then of_char c - 32 else of_char c)"
    by (simp_all add: asciiTables_def)
  show "IsUpper U (of_char c) = asciiUpper (of_char c)" by (rule t(1))
  show "EncodeRune (ToLower U (of_char c)) = [asciiToLower c]"
    using lt by (simp add: t(2) asciiToLower_def EncodeRune_def asciiUpper_def)
  show "EncodeRune (ToUpper U (of_char c)) = [asciiToUpper c]"
    using lt by (auto simp add: t(3) asciiToUpper_def EncodeRune_def asciiLower_def)
qed

lemma EncodeRune_underscore: "EncodeRune 95 = [CHR ''_'']"
  using EncodeRune_byte [of "CHR ''_''"] by (simp add: isASCII_def)

lemma snake_step:
  assumes "asciiTables U" "isASCII c"
  shows "toSnakeCase_loop U i result (c # cs) =
     (if asciiUpper (of_char c)
      then (if i > 0
            then toSnakeCase_loop U (Suc i) (result @ [CHR ''_'', asciiToLower c]) cs
            else toSnakeCase_loop U (Suc i) (result @ [asciiToLower c]) cs)
      else toSnakeCase_loop U (Suc i) (result @ [c]) cs)"
  using assms
  by (simp add: DecodeRune_ascii Let_def asciiTables_byte EncodeRune_byte EncodeRune_underscore)

lemma camel_step:
  assumes "asciiTables U" "isASCII c"
  shows "toCamelCase_loop U n result (c # cs) =
     (if c = CHR ''_'' then toCamelCase_loop U True result cs
      else if n then toCamelCase_loop U False (result @ [asciiToUpper c]) cs
      else toCamelCase_loop U n (result @ [c]) cs)"
proof -
  have e: "((of_char c :: nat) = of_char CHR ''_'') = (c = CHR ''_'')"
    by (metis of_char_eq_iff)
  show ?thesis
    using assms e
    by (simp add: DecodeRune_ascii Let_def asciiTables_byte EncodeRune_byte del: of_char_eq_iff)
qed

lemma asciiToLower_facts:
  "\<not> asciiUpper (of_char (asciiToLower c))"
  "isASCII c \<Longrightarrow> isASCII (asciiToLower c)"
  "asciiUpper (of_char c) \<Longrightarrow> asciiToLower c \<noteq> CHR ''_''"
  "asciiUpper (of_char c) \<Longrightarrow> asciiToUpper (asciiToLower c) = c"
  "\<not> asciiUpper (of_char c) \<Longrightarrow> asciiToLower c = c"
proof -
  show "\<not> asciiUpper (of_char (asciiToLower c))"
    by (auto simp: asciiToLower_def asciiUpper_def)
  show "isASCII c \<Longrightarrow> isASCII (asciiToLower c)"
    by (auto simp: asciiToLower_def asciiUpper_def isASCII_def)
  show "asciiUpper (of_char c) \<Longrightarrow> asciiToLower c \<noteq> CHR ''_''"
  proof
    assume u: "asciiUpper (of_char c)" and e: "asciiToLower c = CHR ''_''"
    from e have "(of_char (asciiToLower c) :: nat) = of_char (CHR ''_'')" by simp
    with u show False by (simp add: asciiToLower_def asciiUpper_def)
  qed
  show "asciiUpper (of_char c) \<Longrightarrow> asciiToUpper (asciiToLower c) = c"
    by (simp add: asciiToLower_def asciiToUpper_def asciiUpper_def asciiLower_def)
  show "\<not> asciiUpper (of_char c) \<Longrightarrow> asciiToLower c = c"
    by (simp add: asciiToLower_def)
qed

lemma underscore_facts: "\<not> asciiUpper (of_char CHR ''_'')" "\<not> asciiUpper 95" "isASCII CHR ''_''"
  by (simp_all add: asciiUpper_def isASCII_def)

lemma toSnakeCase_loop_result:
  assumes "asciiTables U"
  shows "list_all isASCII rs \<Longrightarrow>
         toSnakeCase_loop U i result rs = result @ toSnakeCase_loop U i [] rs"
proof (induction rs arbitrary: i result)
  case Nil
  show ?case by simp
next
  case (Cons r rs)
  then have r: "isASCII r" and rs: "list_all isASCII rs" by simp_all
  have step: "toSnakeCase_loop U j (acc @ w) rs = acc @ toSnakeCase_loop U j w rs" for j acc w
    using Cons.IH [OF rs, of j "acc @ w"] Cons.IH [OF rs, of j w] by simp
  show ?case
    by (simp add: snake_step [OF assms r] step [of _ result "[CHR ''_'', asciiToLower r]"]
          step [of _ result "[asciiToLower r]"] step [of _ result "[r]"] step [of _ "[]"]
          del: toSnakeCase_loop.simps(2))
qed

lemma toSnakeCase_loop_Cons:
  assumes "asciiTables U" "isASCII r" "list_all isASCII rs"
  shows "toSnakeCase_loop U i [] (r # rs) =
     (if asciiUpper (of_char r)
      then (if i > 0 then CHR ''_'' # asciiToLower r # toSnakeCase_loop U (Suc i) [] rs
            else asciiToLower r # toSnakeCase_loop U (Suc i) [] rs)
      else r # toSnakeCase_loop U (Suc i) [] rs)"
  by (simp add: snake_step [OF assms(1,2)]
        toSnakeCase_loop_result [OF assms(1,3), of _ "[CHR ''_'', asciiToLower r]"]
        toSnakeCase_loop_result [OF assms(1,3), of _ "[asciiToLower r]"]
        toSnakeCase_loop_result [OF assms(1,3), of _ "[r]"]
        del: toSnakeCase_loop.simps(2))

lemma toSnakeCase_loop_no_upper:
  assumes "asciiTables U"
  shows "list_all isASCII rs \<Longrightarrow> c \<in> set (toSnakeCase_loop U i [] rs) \<Longrightarrow>
         isASCII c \<and> \<not> asciiUpper (of_char c)"
proof (induction rs arbitrary: i)
  case Nil
  then show ?case by simp
next
  case (Cons r rs)
  then have r: "isASCII r" and rs: "list_all isASCII rs" by simp_all
  from Cons.prems(2) show ?case
    using Cons.IH [OF rs, of "Suc i"]
    by (auto simp: toSnakeCase_loop_Cons [OF assms r rs] asciiToLower_facts underscore_facts r
             simp del: toSnakeCase_loop.simps(2) split: if_splits)
qed

lemma toSnakeCase_loop_fixed:
  assumes "asciiTables U"
  shows "list_all (\<lambda>c. isASCII c \<and> \<not> asciiUpper (of_char c)) rs \<Longrightarrow>
         toSnakeCase_loop U i result rs = result @ rs"
proof (induction rs arbitrary: i result)
  case Nil
  show ?case by simp
next
  case (Cons r rs)
  then show ?case
    by (simp add: snake_step [OF assms] del: toSnakeCase_loop.simps(2))
qed

lemma toSnakeCase_idem:
  assumes "asciiTables U" "list_all isASCII x"
  shows "toSnakeCase U (toSnakeCase U x) = toSnakeCase U x"
proof -
  have "list_all (\<lambda>c. isASCII c \<and> \<not> asciiUpper (of_char c)) (toSnakeCase_loop U 0 [] x)"
    using toSnakeCase_loop_no_upper [OF assms, of _ 0] by (simp add: list_all_iff)
  then show ?thesis
    unfolding toSnakeCase_def
    using toSnakeCase_loop_fixed [OF assms(1), of "toSnakeCase_loop U 0 [] x" 0 "[]"] by simp
qed

lemma toCamelCase_loop_result:
  assumes "asciiTables U"
  shows "list_all isASCII rs \<Longrightarrow>
         toCamelCase_loop U n result rs = result @ toCamelCase_loop U n [] rs"
proof (induction rs arbitrary: n result)
  case Nil
  show ?case by simp
next
  case (Cons r rs)
  then have r: "isASCII r" and rs: "list_all isASCII rs" by simp_all
  have step: "toCamelCase_loop U j (acc @ w) rs = acc @ toCamelCase_loop U j w rs" for j acc w
    using Cons.IH [OF rs, of j "acc @ w"] Cons.IH [OF rs, of j w] by simp
  show ?case
    using Cons.IH [OF rs, of True result]
    by (simp add: camel_step [OF assms r] step [of _ result "[asciiToUpper r]"]
          step [of _ result "[r]"] step [of _ "[]"] del: toCamelCase_loop.simps(2))
qed

lemma camel_snake_loop:
  assumes "asciiTables U"
  shows "list_all isASCII rs \<Longrightarrow> CHR ''_'' \<notin> set rs \<Longrightarrow>
   toCamelCase_loop U False result (toSnakeCase_loop U i [] rs) =
     result @ (if i = 0 then lowerFirst rs else rs)"
proof (induction rs arbitrary: i result)
  case Nil
  show ?case by (simp add: lowerFirst_def)
next
  case (Cons r rs)
  then have r: "isASCII r" and rs: "list_all isASCII rs"
    and nr: "r \<noteq> CHR ''_''" and nrs: "CHR ''_'' \<notin> set rs" by auto
  note IH = Cons.IH [OF rs nrs, of _ "Suc i"]
  note sn = toSnakeCase_loop_Cons [OF assms r rs]
  have lr: "isASCII (asciiToLower r)" using r by (rule asciiToLower_facts)
  show ?case
  proof (cases "asciiUpper (of_char r)")
    case True
    show ?thesis
    proof (cases "i > 0")
      case True
      show ?thesis
        using IH [of "result @ [r]"] True \<open>asciiUpper (of_char r)\<close>
        by (simp add: sn camel_step [OF assms] underscore_facts lr asciiToLower_facts
              del: toSnakeCase_loop.simps(2) toCamelCase_loop.simps(2))
    next
      case False
      show ?thesis
        using IH [of "result @ [asciiToLower r]"] False \<open>asciiUpper (of_char r)\<close>
        by (simp add: sn camel_step [OF assms] lr asciiToLower_facts lowerFirst_def
              del: toSnakeCase_loop.simps(2) toCamelCase_loop.simps(2))
    qed
  next
    case False
    show ?thesis
      using IH [of "result @ [r]"] False nr
      by (simp add: sn camel_step [OF assms] r lowerFirst_def asciiToLower_facts
            del: toSnakeCase_loop.simps(2) toCamelCase_loop.simps(2))
  qed
qed

lemma asciiTables_sampleTables: "asciiTables sampleTables"
  by (simp add: asciiTables_def sampleTables_def asciiUpper_def)

lemma sampleTables_sel:
  "IsUpper sampleTables r = (asciiUpper r \<or> r = 978 \<or> r = 8490)"
  "ToLower sampleTables r = (if asciiUpper r then r + 32 else if r = 8490 then 107 else r)"
  "ToUpper sampleTables r = (if asciiLower r then r - 32 else r)"
  by (simp_all add: sampleTables_def)

lemma snake_hook:
  assumes "asciiTables U" "IsUpper U 978" "ToLower U 978 = 978"
  shows "toSnakeCase U [CHR ''X'', CHR 0xCF, CHR 0x92] = [CHR ''x'', CHR ''_'', CHR 0xCF, CHR 0x92]"
    and "toSnakeCase U [CHR ''x'', CHR ''_'', CHR 0xCF, CHR 0x92] =
           [CHR ''x'', CHR ''_'', CHR ''_'', CHR 0xCF, CHR 0x92]"
proof -
  have d: "DecodeRune [CHR 0xCF, CHR 0x92] = (978, 2)"
    by (simp add: DecodeRune_def between_def)
  have e: "EncodeRune 978 = [CHR 0xCF, CHR 0x92]" "EncodeRune 95 = [CHR ''_'']"
    by (simp_all add: EncodeRune_def char_of_eq_iff)
  have a: "isASCII CHR ''X''" "isASCII CHR ''x''" "isASCII CHR ''_''"
    by (simp_all add: isASCII_def)
  have hook: "toSnakeCase_loop U (Suc i) result [CHR 0xCF, CHR 0x92] =
      result @ [CHR ''_'', CHR 0xCF, CHR 0x92]" for i result
    using assms(2,3) by (simp add: d e)
  show "toSnakeCase U [CHR ''X'', CHR 0xCF, CHR 0x92] = [CHR ''x'', CHR ''_'', CHR 0xCF, CHR 0x92]"
    by (simp add: toSnakeCase_def snake_step [OF assms(1)] a hook asciiUpper_def asciiToLower_def
          char_of_eq_iff del: toSnakeCase_loop.simps(2))
  show "toSnakeCase U [CHR ''x'', CHR ''_'', CHR 0xCF, CHR 0x92] =
           [CHR ''x'', CHR ''_'', CHR ''_'', CHR 0xCF, CHR 0x92]"
    by (simp add: toSnakeCase_def snake_step [OF assms(1)] a hook asciiUpper_def
          del: toSnakeCase_loop.simps(2))
qed

lemma round_trip_kelvin:
  assumes "asciiTables U" "IsUpper U 8490" "ToLower U 8490 = 107"
  shows "toSnakeCase U [CHR ''a'', CHR 0xE2, CHR 0x84, CHR 0xAA] = ''a_k''"
    and "toCamelCase U (toSnakeCase U [CHR ''a'', CHR 0xE2, CHR 0x84, CHR 0xAA]) = ''aK''"
proof -
  have d: "DecodeRune [CHR 0xE2, CHR 0x84, CHR 0xAA] = (8490, 3)"
    by (simp add: DecodeRune_def between_def acceptLo_def acceptHi_def)
  have e: "EncodeRune 107 = [CHR ''k'']" "EncodeRune 95 = [CHR ''_'']"
    by (simp_all add: EncodeRune_def char_of_eq_iff)
  have a: "isASCII CHR ''a''" "isASCII CHR ''_''" "isASCII CHR ''k''"
    by (simp_all add: isASCII_def)
  have kelvin: "toSnakeCase_loop U (Suc i) result [CHR 0xE2, CHR 0x84, CHR 0xAA] =
      result @ ''_k''" for i result
    using assms(2,3) by (simp add: d e)
  show s: "toSnakeCase U [CHR ''a'', CHR 0xE2, CHR 0x84, CHR 0xAA] = ''a_k''"
    by (simp add: toSnakeCase_def snake_step [OF assms(1)] a asciiUpper_def kelvin
          del: toSnakeCase_loop.simps(2))
  show "toCamelCase U (toSnakeCase U [CHR ''a'', CHR 0xE2, CHR 0x84, CHR 0xAA]) = ''aK''"
    by (simp add: s toCamelCase_def camel_step [OF assms(1)] a asciiToUpper_def asciiLower_def
          char_of_eq_iff del: toCamelCase_loop.simps(2))
qed

lemma toSnakeCase_User: "asciiTables U \<Longrightarrow> toSnakeCase U ''User'' = ''user''"
  by (simp add: toSnakeCase_def snake_step isASCII_def asciiUpper_def asciiToLower_def
        char_of_eq_iff del: toSnakeCase_loop.simps(2))

lemma TrimSuffix_y: "suffix ''y'' s \<Longrightarrow> TrimSuffix s ''y'' = butlast s"
  by (auto simp: suffix_def TrimSuffix_append)

text \<open>
  Claim C7. \<^verbatim>\<open>pluralize\<close> is a total function that follows the ordered rule table: a
  word that ends in \<^verbatim>\<open>y\<close> loses it and takes \<^verbatim>\<open>ies\<close>; otherwise a word
  that ends in \<^verbatim>\<open>s\<close>, \<^verbatim>\<open>x\<close>, \<^verbatim>\<open>z\<close>, \<^verbatim>\<open>ch\<close> or
  \<^verbatim>\<open>sh\<close> takes \<^verbatim>\<open>es\<close>; every other word takes \<^verbatim>\<open>s\<close>.
\<close>

theorem pluralize_follows_rule_table: "pluralize word = pluralize_rule_table word"
  by (simp add: pluralize_def pluralize_rule_table_def HasSuffix_iff_suffix TrimSuffix_y)

text \<open>
  Claim C4, as amended. Let the case tables be as Go's on the ASCII range. On a name \<open>x\<close>
  made of ASCII characters, \<^verbatim>\<open>toSnakeCase\<close> is idempotent on its own output, and when
  \<open>x\<close> has no underscore (with or without digits), \<^verbatim>\<open>toCamelCase\<close> after
  \<^verbatim>\<open>toSnakeCase\<close> gives \<open>x\<close> back with its first character lower-cased: the casing of
  the first character is not restored. Beyond ASCII both properties are lost. When a rune is
  upper case and has no lower-case form, as U+03D2 in Go's tables, the name made of
  \<^verbatim>\<open>X\<close> and that rune gets one more underscore at each application. When the
  lower-case form of an upper-case rune is \<^verbatim>\<open>k\<close>, as that of the Kelvin sign U+212A
  (the bytes E2 84 AA) in Go's tables, the round trip of \<^verbatim>\<open>a\<close> followed by that rune
  is \<^verbatim>\<open>aK\<close>, with the ASCII letter.
\<close>

theorem snake_case_idempotent_camel_case_lowers_first:
  assumes "asciiTables U"
  shows "(list_all isASCII x \<longrightarrow>
            toSnakeCase U (toSnakeCase U x) = toSnakeCase U x \<and>
            (CHR ''_'' \<notin> set x \<longrightarrow> toCamelCase U (toSnakeCase U x) = lowerFirst x)) \<and>
         (IsUpper U 978 \<and> ToLower U 978 = 978 \<longrightarrow>
            toSnakeCase U (toSnakeCase U [CHR ''X'', CHR 0xCF, CHR 0x92]) \<noteq>
              toSnakeCase U [CHR ''X'', CHR 0xCF, CHR 0x92]) \<and>
         (IsUpper U 8490 \<and> ToLower U 8490 = 107 \<longrightarrow>
            toCamelCase U (toSnakeCase U [CHR ''a'', CHR 0xE2, CHR 0x84, CHR 0xAA]) = ''aK'')"
proof (intro conjI impI)
  assume x: "list_all isASCII x"
  show "toSnakeCase U (toSnakeCase U x) = toSnakeCase U x"
    using assms x by (rule toSnakeCase_idem)
  assume "CHR ''_'' \<notin> set x"
  then show "toCamelCase U (toSnakeCase U x) = lowerFirst x"
    using camel_snake_loop [OF assms x, of "[]" 0] by (simp add: toSnakeCase_def toCamelCase_def)
next
  assume "IsUpper U 978 \<and> ToLower U 978 = 978"
  then show "toSnakeCase U (toSnakeCase U [CHR ''X'', CHR 0xCF, CHR 0x92]) \<noteq>
              toSnakeCase U [CHR ''X'', CHR 0xCF, CHR 0x92]"
    using snake_hook [OF assms] by simp
next
  assume "IsUpper U 8490 \<and> ToLower U 8490 = 107"
  then show "toCamelCase U (toSnakeCase U [CHR ''a'', CHR 0xE2, CHR 0x84, CHR 0xAA]) = ''aK''"
    using round_trip_kelvin(2) [OF assms] by simp
qed


theorem snake_case_idempotent_camel_case_lowers_first_witness:
  "asciiTables sampleTables \<and> list_all isASCII ''UserProfile'' \<and>
   CHR ''_'' \<notin> set ''UserProfile'' \<and>
   toSnakeCase sampleTables (toSnakeCase sampleTables ''UserProfile'') =
     toSnakeCase sampleTables ''UserProfile'' \<and>
   toCamelCase sampleTables (toSnakeCase sampleTables ''UserProfile'') = ''userProfile'' \<and>
   IsUpper sampleTables 978 \<and> ToLower sampleTables 978 = 978 \<and>
   toSnakeCase sampleTables (toSnakeCase sampleTables [CHR ''X'', CHR 0xCF, CHR 0x92]) \<noteq>
     toSnakeCase sampleTables [CHR ''X'', CHR 0xCF, CHR 0x92] \<and>
   IsUpper sampleTables 8490 \<and> ToLower sampleTables 8490 = 107 \<and>
   toCamelCase sampleTables (toSnakeCase sampleTables [CHR ''a'', CHR 0xE2, CHR 0x84, CHR 0xAA]) =
     ''aK''"
  using snake_case_idempotent_camel_case_lowers_first [OF asciiTables_sampleTables, of "''UserProfile''"]
  by (simp add: asciiTables_sampleTables isASCII_def sampleTables_sel asciiUpper_def lowerFirst_def
        asciiToLower_def char_of_eq_iff)


text \<open>
  The claim as stated fails on every name that starts with an upper-case letter:
  \<^verbatim>\<open>User\<close> has no digit, and its round trip is \<^verbatim>\<open>user\<close>. It fails in its
  first half on the name made of \<^verbatim>\<open>X\<close> and U+03D2 (the bytes CF 92): the function
  gives \<^verbatim>\<open>x_\<close> and the rune, and on that \<^verbatim>\<open>x__\<close> and the rune.
\<close>

theorem camel_case_round_trip_counterexample:
  "\<not> list_ex isDigit ''User'' \<and>
   toCamelCase sampleTables (toSnakeCase sampleTables ''User'') = ''user'' \<and>
   toCamelCase sampleTables (toSnakeCase sampleTables ''User'') \<noteq> ''User'' \<and>
   toSnakeCase sampleTables [CHR ''X'', CHR 0xCF, CHR 0x92] =
     [CHR ''x'', CHR ''_'', CHR 0xCF, CHR 0x92] \<and>
   toSnakeCase sampleTables [CHR ''x'', CHR ''_'', CHR 0xCF, CHR 0x92] =
     [CHR ''x'', CHR ''_'', CHR ''_'', CHR 0xCF, CHR 0x92]"
proof -
  have "toCamelCase sampleTables ''user'' = ''user''"
    by (simp add: toCamelCase_def camel_step [OF asciiTables_sampleTables] isASCII_def
          del: toCamelCase_loop.simps(2))
  then show ?thesis
    by (simp add: toSnakeCase_User [OF asciiTables_sampleTables]
          snake_hook [OF asciiTables_sampleTables] sampleTables_sel asciiUpper_def isDigit_def)
qed

section \<open>Properties of model registration\<close>

lemma processField_Type: "Type (processField R m f) = Type m"
  by (simp add: processField_def Let_def)

lemma processField_ResourceName: "ResourceName (processField R m f) = ResourceName m"
  by (simp add: processField_def Let_def)

lemma processField_PluralName: "PluralName (processField R m f) = PluralName m"
  by (simp add: processField_def Let_def)

lemma foldl_processField_names:
  "Type (foldl (processField R) m fs) = Type m \<and>
   ResourceName (foldl (processField R) m fs) = ResourceName m \<and>
   PluralName (foldl (processField R) m fs) = PluralName m"
  by (induction fs arbitrary: m)
     (simp_all add: processField_Type processField_ResourceName processField_PluralName)

lemma buildModelInfo_names:
  "Type (buildModelInfo R t rn) = t"
  "ResourceName (buildModelInfo R t rn) = rn"
  "PluralName (buildModelInfo R t rn) = pluralize rn"
  by (simp_all add: buildModelInfo_def foldl_processField_names)

lemma exampleReflect_sel:
  "TypeKind (exampleReflect b) = exampleKind"
  "TypeName (exampleReflect b) = exampleName"
  "TypeString (exampleReflect b) = exampleString"
  "TypeElem (exampleReflect b) t = T_Post"
  "TypeFields (exampleReflect b) = exampleFieldList b"
  "TypeFieldByName (exampleReflect b) t name =
     find (\<lambda>f. sfName f = name) (exampleFieldList b t)"
  by (simp_all add: exampleReflect_def)

lemma example_deref:
  "derefModelType (exampleReflect b) (Some T_User) = Inr T_User"
  "derefModelType (exampleReflect b) (Some T_Post) = Inr T_Post"
  "derefModelType (exampleReflect b) (Some T_Tag) = Inr T_Tag"
  "derefModelType (exampleReflect b) (Some T_Hidden) = Inr T_Hidden"
  by (simp_all add: derefModelType_def exampleReflect_sel)

lemma postInfo_eq1:
  "buildModelInfo (exampleReflect b) T_Post ''post'' =
   \<lparr>Type = T_Post,
    Fields =
      [\<lparr>Name = ''ID'', JSONName = ''id'', FieldType = T_uint, IsID = True, OmitEmpty = False\<rparr>,
       \<lparr>Name = ''UserID'', JSONName = ''user_id'', FieldType = T_uint, IsID = True,
        OmitEmpty = False\<rparr>,
       \<lparr>Name = ''Title'', JSONName = ''title'', FieldType = T_string, IsID = False,
        OmitEmpty = False\<rparr>,
       \<lparr>Name = ''User'', JSONName = ''user'', FieldType = T_User, IsID = False,
        OmitEmpty = True\<rparr>],
    ForeignKeys = [fkID, fkUserID, fkUser],
    ResourceName = ''post'', PluralName = ''posts''\<rparr>"
  by (simp add: buildModelInfo_def exampleReflect_sel postFields_def processField_def Let_def
        Get_def Split_0_def HasSuffix_def TrimSuffix_def isBasicType_def pluralize_def
        fkID_def fkUserID_def fkUser_def)

lemma userInfo_eq1:
  "buildModelInfo (exampleReflect False) T_User ''user'' =
   \<lparr>Type = T_User,
    Fields =
      [\<lparr>Name = ''ID'', JSONName = ''id'', FieldType = T_uint, IsID = True, OmitEmpty = False\<rparr>,
       \<lparr>Name = ''Name'', JSONName = ''name'', FieldType = T_string, IsID = False,
        OmitEmpty = False\<rparr>,
       \<lparr>Name = ''Email'', JSONName = ''email'', FieldType = T_string, IsID = False,
        OmitEmpty = False\<rparr>],
    ForeignKeys = [fkID],
    ResourceName = ''user'', PluralName = ''users''\<rparr>"
  by (simp add: buildModelInfo_def exampleReflect_sel userFields_def processField_def Let_def
        Get_def Split_0_def HasSuffix_def TrimSuffix_def isBasicType_def pluralize_def
        fkID_def)

lemma userInfo_eq2:
  "buildModelInfo (exampleReflect True) T_User ''user'' =
   \<lparr>Type = T_User,
    Fields =
      [\<lparr>Name = ''ID'', JSONName = ''id'', FieldType = T_uint, IsID = True, OmitEmpty = False\<rparr>,
       \<lparr>Name = ''Name'', JSONName = ''name'', FieldType = T_string, IsID = False,
        OmitEmpty = False\<rparr>,
       \<lparr>Name = ''Email'', JSONName = ''email'', FieldType = T_string, IsID = False,
        OmitEmpty = False\<rparr>,
       \<lparr>Name = ''Posts'', JSONName = ''posts'', FieldType = T_Post_slice, IsID = False,
        OmitEmpty = True\<rparr>],
    ForeignKeys = [fkID],
    ResourceName = ''user'', PluralName = ''users''\<rparr>"
  by (simp add: buildModelInfo_def exampleReflect_sel userFields_def processField_def Let_def
        Get_def Split_0_def HasSuffix_def TrimSuffix_def isBasicType_def pluralize_def
        fkID_def)

text \<open>
  Claim C1, as amended. A successful \<^verbatim>\<open>RegisterModel\<close> stores the metadata of the
  struct type under the type's declared name, with the resource name it was given (or the
  snake-case form of the declared name when none was given), and changes no other key of the
  registry: the resource name is not a key.
\<close>

theorem RegisterModel_keyed_by_type_name:
  assumes "RegisterModel U R g model resourceName = Inr g'"
  shows "\<exists>modelType info.
           derefModelType R model = Inr modelType \<and>
           Models g' (TypeName R modelType) = Some info \<and>
           Type info = modelType \<and>
           ResourceName info =
             (if resourceName = [] then toSnakeCase U (TypeName R modelType) else resourceName) \<and>
           (\<forall>k. k \<noteq> TypeName R modelType \<longrightarrow> Models g' k = Models g k)"
proof (cases "derefModelType R model")
  case (Inl e)
  with assms show ?thesis by (simp add: RegisterModel_def)
next
  case (Inr modelType)
  with assms have "g' = g\<lparr>Models := (Models g)(TypeName R modelType \<mapsto>
      buildModelInfo R modelType
        (if resourceName = [] then toSnakeCase U (TypeName R modelType) else resourceName))\<rparr>"
    by (simp add: RegisterModel_def Let_def)
  with Inr show ?thesis
    by (simp add: buildModelInfo_names)
qed

theorem RegisterModel_keyed_by_type_name_witness:
  "RegisterModel sampleTables (exampleReflect False) (New emptyDB []) (Some T_User) [] =
     Inr (register sampleTables (exampleReflect False) T_User [] (New emptyDB [])) \<and>
   map_option ResourceName
     (Models (register sampleTables (exampleReflect False) T_User [] (New emptyDB [])) ''User'') =
     Some ''user'' \<and>
   Models (register sampleTables (exampleReflect False) T_User [] (New emptyDB [])) ''Post'' = None"
proof -
  let ?g' = "register sampleTables (exampleReflect False) T_User [] (New emptyDB [])"
  have g': "RegisterModel sampleTables (exampleReflect False) (New emptyDB []) (Some T_User) [] =
      Inr ?g'"
    by (simp add: register_def RegisterModel_def example_deref Let_def)
  from RegisterModel_keyed_by_type_name [OF g']
  have "map_option ResourceName (Models ?g' ''User'') = Some ''user'' \<and>
        Models ?g' ''Post'' = None"
    by (auto simp: example_deref exampleReflect_sel toSnakeCase_User [OF asciiTables_sampleTables]
          New_def)
  with g' show ?thesis by blast
qed

text \<open>
  The claim as stated fails: after \<^verbatim>\<open>User\<close> is registered, the key
  \<^verbatim>\<open>User\<close> holds the metadata, whose resource name is \<^verbatim>\<open>user\<close>, and the
  key \<^verbatim>\<open>user\<close> holds nothing.
\<close>

theorem resource_name_key_counterexample:
  "map_option ResourceName
     (Models (register sampleTables (exampleReflect False) T_User [] (New emptyDB [])) ''User'') =
     Some ''user'' \<and>
   Models (register sampleTables (exampleReflect False) T_User [] (New emptyDB [])) ''user'' = None"
  by (simp add: register_def RegisterModel_def example_deref Let_def buildModelInfo_names
        exampleReflect_sel toSnakeCase_User [OF asciiTables_sampleTables] New_def)

section \<open>Properties of route generation\<close>

lemma andThen_Inl [simp]: "andThen (Inl p) f = Inl p"
  by (simp add: andThen_def)

lemma andThen_Inr [simp]: "andThen (Inr x) f = f x"
  by (simp add: andThen_def)

lemma andThen_eq_Inr: "andThen r f = Inr y \<longleftrightarrow> (\<exists>x. r = Inr x \<and> f x = Inr y)"
  by (cases r) simp_all

lemma hasRoute_simps [simp]:
  "\<not> hasRoute [] method path"
  "hasRoute ((meth, p, h) # router) method path \<longleftrightarrow>
     (meth = method \<and> p = path) \<or> hasRoute router method path"
  "hasRoute (xs @ ys) method path \<longleftrightarrow> hasRoute xs method path \<or> hasRoute ys method path"
  by (auto simp: hasRoute_def list_ex_iff)

lemma hasRoute_routeKeys: "hasRoute router method path \<longleftrightarrow> (method, path) \<in> set (routeKeys router)"
  by (auto simp: hasRoute_def routeKeys_def list_ex_iff)

lemma handle_bound:
  "hasRoute (Router g) method path \<Longrightarrow> handle method path h g = Inl (HandlersAlreadyRegistered method path)"
  by (simp add: handle_def)

lemma handle_fresh:
  "\<not> hasRoute (Router g) method path \<Longrightarrow>
   handle method path h g = Inr (g\<lparr>Router := Router g @ [(method, path, h)]\<rparr>)"
  by (simp add: handle_def)

lemma handle_Inr_iff:
  "handle method path h g = Inr g' \<longleftrightarrow>
     \<not> hasRoute (Router g) method path \<and> g' = g\<lparr>Router := Router g @ [(method, path, h)]\<rparr>"
  by (auto simp: handle_def)

lemma generateModelAPI_bound:
  "hasRoute (Router g) GET (basePath m) \<Longrightarrow>
   generateModelAPI U g m = Inl (HandlersAlreadyRegistered GET (basePath m))"
  by (simp add: generateModelAPI_def Let_def handle_bound)

lemma generateModelAPI_fresh:
  assumes "\<not> hasRoute (Router g) GET (basePath m)"
    "\<not> hasRoute (Router g) GET (basePath m @ ''/:id'')"
    "\<not> hasRoute (Router g) POST (basePath m)"
    "\<not> hasRoute (Router g) PUT (basePath m @ ''/:id'')"
    "\<not> hasRoute (Router g) DELETE (basePath m @ ''/:id'')"
  shows "generateModelAPI U g m =
     bindForeignKeys U (basePath m) m (g\<lparr>Router := Router g @ bindCRUD (basePath m) m\<rparr>)
       (ForeignKeys m)"
  using assms by (simp add: generateModelAPI_def Let_def handle_def bindCRUD_def)

lemma generateModelAPI_Inr:
  assumes "generateModelAPI U g m = Inr g1"
  shows "\<not> hasRoute (Router g) GET (basePath m)"
    "\<not> hasRoute (Router g) GET (basePath m @ ''/:id'')"
    "\<not> hasRoute (Router g) POST (basePath m)"
    "\<not> hasRoute (Router g) PUT (basePath m @ ''/:id'')"
    "\<not> hasRoute (Router g) DELETE (basePath m @ ''/:id'')"
    "bindForeignKeys U (basePath m) m (g\<lparr>Router := Router g @ bindCRUD (basePath m) m\<rparr>)
       (ForeignKeys m) = Inr g1"
  using assms
  by (auto simp: generateModelAPI_def Let_def andThen_eq_Inr handle_Inr_iff bindCRUD_def)

lemma bindRelated_skip:
  "lookupBool (RegisteredPaths g) (relatedPath U b fk) \<Longrightarrow> bindRelated U b m g fk = Inr g"
  by (simp add: bindRelated_def)

lemma bindRelated_empty: "RelatedModel fk = [] \<Longrightarrow> bindRelated U b m g fk = Inr g"
  by (simp add: bindRelated_def)

lemma bindRelated_binds:
  "RelatedModel fk \<noteq> [] \<Longrightarrow> \<not> lookupBool (RegisteredPaths g) (relatedPath U b fk) \<Longrightarrow>
   \<not> hasRoute (Router g) GET (relatedPath U b fk) \<Longrightarrow>
   bindRelated U b m g fk =
     Inr (g\<lparr>Router := Router g @ [(GET, relatedPath U b fk, RelatedHandler m fk)],
            RegisteredPaths := (RegisteredPaths g)(relatedPath U b fk \<mapsto> True)\<rparr>)"
  by (simp add: bindRelated_def handle_def)

lemma bindRelated_panics:
  "RelatedModel fk \<noteq> [] \<Longrightarrow> \<not> lookupBool (RegisteredPaths g) (relatedPath U b fk) \<Longrightarrow>
   hasRoute (Router g) GET (relatedPath U b fk) \<Longrightarrow>
   bindRelated U b m g fk = Inl (HandlersAlreadyRegistered GET (relatedPath U b fk))"
  by (simp add: bindRelated_def handle_def)

lemma bindRelated_Inr:
  assumes "bindRelated U b m g fk = Inr g'"
  shows "g' = g \<or>
    (RelatedModel fk \<noteq> [] \<and> \<not> lookupBool (RegisteredPaths g) (relatedPath U b fk) \<and>
     \<not> hasRoute (Router g) GET (relatedPath U b fk) \<and>
     g' = g\<lparr>Router := Router g @ [(GET, relatedPath U b fk, RelatedHandler m fk)],
            RegisteredPaths := (RegisteredPaths g)(relatedPath U b fk \<mapsto> True)\<rparr>)"
  using assms
  by (auto simp: bindRelated_def andThen_eq_Inr handle_Inr_iff split: if_splits)

lemma bindRelated_registers:
  "bindRelated U b m g fk = Inr g' \<Longrightarrow> RelatedModel fk \<noteq> [] \<Longrightarrow>
   lookupBool (RegisteredPaths g') (relatedPath U b fk)"
  by (auto simp: bindRelated_def andThen_eq_Inr handle_Inr_iff lookupBool_def split: if_splits)

lemma bindRelated_keeps:
  "bindRelated U b m g fk = Inr g' \<Longrightarrow> lookupBool (RegisteredPaths g) p \<Longrightarrow>
   lookupBool (RegisteredPaths g') p"
  by (auto simp: bindRelated_def andThen_eq_Inr handle_Inr_iff lookupBool_def split: if_splits)

lemma bindForeignKeys_keeps:
  "bindForeignKeys U b m g fks = Inr g1 \<Longrightarrow> lookupBool (RegisteredPaths g) p \<Longrightarrow>
   lookupBool (RegisteredPaths g1) p"
proof (induction fks arbitrary: g)
  case Nil
  then show ?case by simp
next
  case (Cons a fks)
  from Cons.prems(1) obtain g' where g': "bindRelated U b m g a = Inr g'"
      "bindForeignKeys U b m g' fks = Inr g1"
    by (auto simp: andThen_eq_Inr)
  show ?case
    using Cons.IH [OF g'(2)] bindRelated_keeps [OF g'(1) Cons.prems(2)] .
qed

lemma bindForeignKeys_registers:
  "bindForeignKeys U b m g fks = Inr g1 \<Longrightarrow> fk \<in> set fks \<Longrightarrow> RelatedModel fk \<noteq> [] \<Longrightarrow>
   lookupBool (RegisteredPaths g1) (relatedPath U b fk)"
proof (induction fks arbitrary: g)
  case Nil
  then show ?case by simp
next
  case (Cons a fks)
  from Cons.prems(1) obtain g' where g': "bindRelated U b m g a = Inr g'"
      "bindForeignKeys U b m g' fks = Inr g1"
    by (auto simp: andThen_eq_Inr)
  show ?case
  proof (cases "fk = a")
    case True
    then show ?thesis
      using bindForeignKeys_keeps [OF g'(2)] bindRelated_registers [OF g'(1)] Cons.prems(3)
      by simp
  next
    case False
    then show ?thesis using Cons.IH [OF g'(2)] Cons.prems by simp
  qed
qed

lemma bindForeignKeys_skip:
  "(\<And>fk. fk \<in> set fks \<Longrightarrow> RelatedModel fk \<noteq> [] \<Longrightarrow>
      lookupBool (RegisteredPaths g) (relatedPath U b fk)) \<Longrightarrow>
   bindForeignKeys U b m g fks = Inr g"
proof (induction fks)
  case Nil
  show ?case by simp
next
  case (Cons a fks)
  have "bindRelated U b m g a = Inr g"
  proof (cases "RelatedModel a = []")
    case True
    then show ?thesis by (rule bindRelated_empty)
  next
    case False
    then show ?thesis using Cons.prems [of a] by (simp add: bindRelated_skip)
  qed
  then show ?case using Cons by simp
qed

lemma relatedPaths_append: "relatedPaths (xs @ ys) = relatedPaths xs @ relatedPaths ys"
  by (simp add: relatedPaths_def)

lemma relatedPaths_bindCRUD: "relatedPaths (bindCRUD b m) = []"
  by (simp add: relatedPaths_def bindCRUD_def)

lemma tracked_bindRelated:
  assumes "tracked g" "bindRelated U b m g fk = Inr g'"
  shows "tracked g'"
  using bindRelated_Inr [OF assms(2)]
proof
  assume "g' = g"
  with assms(1) show ?thesis by simp
next
  let ?p = "relatedPath U b fk"
  assume a: "RelatedModel fk \<noteq> [] \<and> \<not> lookupBool (RegisteredPaths g) ?p \<and>
     \<not> hasRoute (Router g) GET ?p \<and>
     g' = g\<lparr>Router := Router g @ [(GET, ?p, RelatedHandler m fk)],
            RegisteredPaths := (RegisteredPaths g)(?p \<mapsto> True)\<rparr>"
  have new: "?p \<notin> set (relatedPaths (Router g))"
    using assms(1) a by (auto simp: tracked_def list_all_iff)
  have paths: "relatedPaths (Router g @ [(GET, ?p, RelatedHandler m fk)]) =
      relatedPaths (Router g) @ [?p]"
    by (simp add: relatedPaths_def)
  show ?thesis
    using assms(1) new a
    by (auto simp: tracked_def paths list_all_iff lookupBool_def)
qed

lemma tracked_bindForeignKeys:
  "tracked g \<Longrightarrow> bindForeignKeys U b m g fks = Inr g1 \<Longrightarrow> tracked g1"
proof (induction fks arbitrary: g)
  case Nil
  then show ?case by simp
next
  case (Cons a fks)
  from Cons.prems(2) obtain g' where g': "bindRelated U b m g a = Inr g'"
      "bindForeignKeys U b m g' fks = Inr g1"
    by (auto simp: andThen_eq_Inr)
  show ?case
    using Cons.IH [OF tracked_bindRelated [OF Cons.prems(1) g'(1)] g'(2)] .
qed

lemma tracked_bindCRUD: "tracked g \<Longrightarrow> tracked (g\<lparr>Router := Router g @ bindCRUD b m\<rparr>)"
  by (simp add: tracked_def relatedPaths_append relatedPaths_bindCRUD)

lemma tracked_generateModelAPI:
  "tracked g \<Longrightarrow> generateModelAPI U g m = Inr g1 \<Longrightarrow> tracked g1"
  using tracked_bindForeignKeys [OF tracked_bindCRUD generateModelAPI_Inr(6)] by blast

lemma Router_bindRelated:
  "bindRelated U b m g fk = Inr g' \<Longrightarrow>
   \<exists>rel. Router g' = Router g @ rel \<and> list_all isRelated rel"
  using bindRelated_Inr [of U b m g fk g'] by auto

lemma Router_bindForeignKeys:
  "bindForeignKeys U b m g fks = Inr g1 \<Longrightarrow>
   \<exists>rel. Router g1 = Router g @ rel \<and> list_all isRelated rel"
proof (induction fks arbitrary: g)
  case Nil
  then show ?case by simp
next
  case (Cons a fks)
  from Cons.prems obtain g' where g': "bindRelated U b m g a = Inr g'"
      "bindForeignKeys U b m g' fks = Inr g1"
    by (auto simp: andThen_eq_Inr)
  obtain r1 where r1: "Router g' = Router g @ r1" "list_all isRelated r1"
    using Router_bindRelated [OF g'(1)] by (elim exE conjE) (rule that; assumption)
  obtain r2 where r2: "Router g1 = Router g' @ r2" "list_all isRelated r2"
    using Cons.IH [OF g'(2)] by (elim exE conjE) (rule that; assumption)
  have "Router g1 = Router g @ (r1 @ r2)" "list_all isRelated (r1 @ r2)"
    using r1 r2 by simp_all
  then show ?case by (intro exI conjI)
qed

lemma Router_generateModelAPI:
  assumes "generateModelAPI U g m = Inr g1"
  shows "\<exists>rel. Router g1 = Router g @ bindCRUD (basePath m) m @ rel \<and> list_all isRelated rel"
  using Router_bindForeignKeys [OF generateModelAPI_Inr(6) [OF assms]] by simp

lemma generateModelAPI_again:
  assumes "generateModelAPI U g m = Inr g1"
  shows "generateModelAPI U g1 m = Inl (HandlersAlreadyRegistered GET (basePath m))"
proof -
  obtain rel where "Router g1 = Router g @ bindCRUD (basePath m) m @ rel"
    using Router_generateModelAPI [OF assms] by (elim exE conjE) (rule that; assumption)
  then have "hasRoute (Router g1) GET (basePath m)"
    by (simp add: bindCRUD_def)
  then show ?thesis by (rule generateModelAPI_bound)
qed

lemma bindForeignKeys_again:
  assumes "generateModelAPI U g m = Inr g1"
  shows "bindForeignKeys U (basePath m) m g1 (ForeignKeys m) = Inr g1"
  by (rule bindForeignKeys_skip)
     (rule bindForeignKeys_registers [OF generateModelAPI_Inr(6) [OF assms]])

lemma routeKeys_append: "routeKeys (xs @ ys) = routeKeys xs @ routeKeys ys"
  by (simp add: routeKeys_def)

lemma routeKeys_simps:
  "routeKeys [] = []" "routeKeys ((method, path, h) # router) = (method, path) # routeKeys router"
  by (simp_all add: routeKeys_def)

lemma distinct_handle:
  "handle method path h g = Inr g' \<Longrightarrow> distinct (routeKeys (Router g)) \<Longrightarrow>
   distinct (routeKeys (Router g'))"
  by (auto simp: handle_Inr_iff hasRoute_routeKeys routeKeys_append routeKeys_simps)

lemma distinct_bindRelated:
  "bindRelated U b m g fk = Inr g' \<Longrightarrow> distinct (routeKeys (Router g)) \<Longrightarrow>
   distinct (routeKeys (Router g'))"
  using bindRelated_Inr [of U b m g fk g']
  by (auto simp: hasRoute_routeKeys routeKeys_append routeKeys_simps)

lemma distinct_bindForeignKeys:
  "bindForeignKeys U b m g fks = Inr g1 \<Longrightarrow> distinct (routeKeys (Router g)) \<Longrightarrow>
   distinct (routeKeys (Router g1))"
proof (induction fks arbitrary: g)
  case Nil
  then show ?case by simp
next
  case (Cons a fks)
  from Cons.prems(1) obtain g' where g': "bindRelated U b m g a = Inr g'"
      "bindForeignKeys U b m g' fks = Inr g1"
    by (auto simp: andThen_eq_Inr)
  show ?case
    using Cons.IH [OF g'(2) distinct_bindRelated [OF g'(1) Cons.prems(2)]] .
qed

lemma distinct_generateModelAPI:
  assumes "generateModelAPI U g m = Inr g1" "distinct (routeKeys (Router g))"
  shows "distinct (routeKeys (Router g1))"
proof -
  have "distinct (routeKeys (Router g @ bindCRUD (basePath m) m))"
    using assms(2) generateModelAPI_Inr(1-5) [OF assms(1)]
    by (auto simp: routeKeys_append hasRoute_routeKeys routeKeys_simps bindCRUD_def)
  then show ?thesis
    using distinct_bindForeignKeys [OF generateModelAPI_Inr(6) [OF assms(1)]] by simp
qed

lemma generateModelAPI_CRUD_bound:
  assumes "r \<in> set (bindCRUD (basePath m) m)" "hasRoute (Router g) (fst r) (fst (snd r))"
  shows "\<exists>p. generateModelAPI U g m = Inl p"
proof (cases "generateModelAPI U g m")
  case (Inl p)
  then show ?thesis by simp
next
  case (Inr g1)
  from generateModelAPI_Inr(1-5) [OF Inr] assms show ?thesis
    by (auto simp: bindCRUD_def)
qed

lemma Models_bindRelated:
  "bindRelated U b m g fk = Inr g' \<Longrightarrow> Models g' = Models g \<and> DB g' = DB g"
  using bindRelated_Inr [of U b m g fk g'] by auto

lemma Models_bindForeignKeys:
  "bindForeignKeys U b m g fks = Inr g1 \<Longrightarrow> Models g1 = Models g \<and> DB g1 = DB g"
proof (induction fks arbitrary: g)
  case Nil
  then show ?case by simp
next
  case (Cons a fks)
  from Cons.prems(1) obtain g' where g': "bindRelated U b m g a = Inr g'"
      "bindForeignKeys U b m g' fks = Inr g1"
    by (auto simp: andThen_eq_Inr)
  show ?case
    using Cons.IH [OF g'(2)] Models_bindRelated [OF g'(1)] by simp
qed

lemma Models_generateModelAPI:
  "generateModelAPI U g m = Inr g1 \<Longrightarrow> Models g1 = Models g \<and> DB g1 = DB g"
  using Models_bindForeignKeys [OF generateModelAPI_Inr(6)] by fastforce

lemma Models_generateAll:
  "generateAll U M g keys = Inr g1 \<Longrightarrow> Models g1 = Models g \<and> DB g1 = DB g"
proof (induction keys arbitrary: g)
  case Nil
  then show ?case by simp
next
  case (Cons k keys)
  show ?case
  proof (cases "M k")
    case None
    with Cons show ?thesis by simp
  next
    case (Some mi)
    with Cons.prems obtain g' where g': "generateModelAPI U g mi = Inr g'"
        "generateAll U M g' keys = Inr g1"
      by (auto simp: andThen_eq_Inr)
    show ?thesis
      using Cons.IH [OF g'(2)] Models_generateModelAPI [OF g'(1)] by simp
  qed
qed

lemma Models_GenerateAPI:
  "GenerateAPI U keys g = Inr g1 \<Longrightarrow> Models g1 = Models g \<and> DB g1 = DB g"
  unfolding GenerateAPI_def by (rule Models_generateAll)

lemma tracked_New: "list_all (\<lambda>r. \<not> isRelated r) router \<Longrightarrow> tracked (New db router)"
  by (simp add: tracked_def New_def relatedPaths_def list_all_iff filter_False)

lemma relatedPath_User:
  assumes "asciiTables U"
  shows "relatedPath U b fkUser = b @ ''/:id/user''" "relatedPath U b fkUserID = b @ ''/:id/user''"
  by (simp_all add: relatedPath_def fkUser_def fkUserID_def toSnakeCase_User [OF assms])

lemma RelatedModel_fks:
  "RelatedModel fkID = []" "RelatedModel fkUserID = ''User''" "RelatedModel fkUser = ''User''"
  by (simp_all add: fkID_def fkUserID_def fkUser_def)

lemma postInfo_sel:
  "ForeignKeys postInfo = [fkID, fkUserID, fkUser]"
  "PluralName postInfo = ''posts''"
  "ResourceName postInfo = ''post''"
  "Type postInfo = T_Post"
  by (simp_all add: postInfo_def postInfo_eq1)

lemma basePath_postInfo: "basePath postInfo = ''/api/posts''"
  by (simp add: basePath_def postInfo_sel)

lemma path_neq:
  "b @ ''/:id/user'' \<noteq> b" "b @ ''/:id/user'' \<noteq> b @ ''/:id''"
  "b \<noteq> b @ ''/:id/user''" "b @ ''/:id'' \<noteq> b @ ''/:id/user''"
  by simp_all

lemma bindForeignKeys_postInfo:
  assumes "asciiTables U"
    "\<not> lookupBool (RegisteredPaths g) (basePath postInfo @ ''/:id/user'')"
    "\<not> hasRoute (Router g) GET (basePath postInfo @ ''/:id/user'')"
  shows "bindForeignKeys U (basePath postInfo) postInfo g (ForeignKeys postInfo) =
     Inr (g\<lparr>Router := Router g @
               [(GET, basePath postInfo @ ''/:id/user'', RelatedHandler postInfo fkUserID)],
            RegisteredPaths := (RegisteredPaths g)(basePath postInfo @ ''/:id/user'' \<mapsto> True)\<rparr>)"
  using assms(2,3)
  by (simp add: postInfo_sel bindRelated_def RelatedModel_fks relatedPath_User [OF assms(1)]
        handle_def lookupBool_def)

lemma generate_postInfo:
  assumes "asciiTables U"
    "\<not> lookupBool (RegisteredPaths g) ''/api/posts/:id/user''"
    "\<forall>k \<in> set (routeKeys (Router g)). \<not> prefix ''/api/posts'' (snd k)"
  shows "generateModelAPI U g postInfo =
     Inr (g\<lparr>Router := Router g @ bindCRUD ''/api/posts'' postInfo @
               [(GET, ''/api/posts/:id/user'', RelatedHandler postInfo fkUserID)],
            RegisteredPaths := (RegisteredPaths g)(''/api/posts/:id/user'' \<mapsto> True)\<rparr>)"
proof -
  have free: "\<not> hasRoute (Router g) meth (''/api/posts'' @ rest)" for meth rest
    using assms(3) by (auto simp: hasRoute_routeKeys)
  have f: "\<not> hasRoute (Router g) meth ''/api/posts''"
    "\<not> hasRoute (Router g) meth ''/api/posts/:id''"
    "\<not> hasRoute (Router g) meth ''/api/posts/:id/user''" for meth
    using free [of meth "[]"] free [of meth "''/:id''"] free [of meth "''/:id/user''"]
    by simp_all
  have "generateModelAPI U g postInfo =
      bindForeignKeys U (basePath postInfo) postInfo
        (g\<lparr>Router := Router g @ bindCRUD (basePath postInfo) postInfo\<rparr>) (ForeignKeys postInfo)"
    by (rule generateModelAPI_fresh) (simp_all add: basePath_postInfo f)
  also have "\<dots> = Inr (g\<lparr>Router := Router g @ bindCRUD (basePath postInfo) postInfo @
               [(GET, basePath postInfo @ ''/:id/user'', RelatedHandler postInfo fkUserID)],
            RegisteredPaths := (RegisteredPaths g)(basePath postInfo @ ''/:id/user'' \<mapsto> True)\<rparr>)"
    using assms(2)
    by (subst bindForeignKeys_postInfo [OF assms(1)])
       (simp_all add: basePath_postInfo f bindCRUD_def)
  finally show ?thesis by (simp add: basePath_postInfo)
qed


lemma New_sel:
  "Router (New db router) = router" "RegisteredPaths (New db router) = Map.empty"
  "Models (New db router) = Map.empty" "DB (New db router) = db"
  by (simp_all add: New_def)

lemma lookupBool_empty: "\<not> lookupBool Map.empty p"
  by (simp add: lookupBool_def)

lemma postGenerated_sel:
  "Router postGenerated = bindCRUD ''/api/posts'' postInfo @
     [(GET, ''/api/posts/:id/user'', RelatedHandler postInfo fkUserID)]"
  "RegisteredPaths postGenerated = [''/api/posts/:id/user'' \<mapsto> True]"
  by (simp_all add: postGenerated_def)

lemma generate_postInfo_New:
  "asciiTables U \<Longrightarrow> generateModelAPI U (New emptyDB []) postInfo = Inr postGenerated"
  by (subst generate_postInfo)
     (simp_all add: New_sel lookupBool_empty routeKeys_simps, simp add: New_def postGenerated_def)

text \<open>
  Claim C3, as amended. In the loop over the foreign keys, a key whose path is already in
  \<open>RegisteredPaths\<close> is skipped silently: the generator stays as it is, so the first
  registration wins. For a key with a related model whose path is not there the route is
  requested: when the request returns, the handler of the key is the last route of the router
  and the path is recorded; when the router has a \<^verbatim>\<open>GET\<close> route for the path
  already, the request panics. A run of \<^verbatim>\<open>generateModelAPI\<close> that returns keeps
  tracked relationship routes tracked and leaves the paths of all the model's relationship
  routes in \<open>RegisteredPaths\<close>, so that the loop, run again on the result, changes
  nothing. But a second run of \<^verbatim>\<open>generateModelAPI\<close> for the same model does not
  reach the loop: it panics at its first statement, the request for the list route, which is
  bound.
\<close>

theorem relationship_routes_bound_once:
  "(lookupBool (RegisteredPaths g) (relatedPath U b fk) \<longrightarrow> bindRelated U b m g fk = Inr g) \<and>
   (RelatedModel fk \<noteq> [] \<and> \<not> lookupBool (RegisteredPaths g) (relatedPath U b fk) \<longrightarrow>
      (bindRelated U b m g fk = Inr g' \<longrightarrow>
         g' = g\<lparr>Router := Router g @ [(GET, relatedPath U b fk, RelatedHandler m fk)],
                RegisteredPaths := (RegisteredPaths g)(relatedPath U b fk \<mapsto> True)\<rparr>) \<and>
      (hasRoute (Router g) GET (relatedPath U b fk) \<longrightarrow>
         bindRelated U b m g fk = Inl (HandlersAlreadyRegistered GET (relatedPath U b fk)))) \<and>
   (generateModelAPI U g m = Inr g1 \<longrightarrow>
      (tracked g \<longrightarrow> tracked g1) \<and>
      list_all (\<lambda>fk. RelatedModel fk \<noteq> [] \<longrightarrow>
                  lookupBool (RegisteredPaths g1) (relatedPath U (basePath m) fk))
        (ForeignKeys m) \<and>
      bindForeignKeys U (basePath m) m g1 (ForeignKeys m) = Inr g1 \<and>
      generateModelAPI U g1 m = Inl (HandlersAlreadyRegistered GET (basePath m)))"
proof (intro conjI impI)
  assume "lookupBool (RegisteredPaths g) (relatedPath U b fk)"
  then show "bindRelated U b m g fk = Inr g" by (rule bindRelated_skip)
next
  assume new: "RelatedModel fk \<noteq> [] \<and> \<not> lookupBool (RegisteredPaths g) (relatedPath U b fk)"
  {
    assume "bindRelated U b m g fk = Inr g'"
    with new
    show "g' = g\<lparr>Router := Router g @ [(GET, relatedPath U b fk, RelatedHandler m fk)],
                   RegisteredPaths := (RegisteredPaths g)(relatedPath U b fk \<mapsto> True)\<rparr>"
      by (auto simp: bindRelated_def andThen_eq_Inr handle_Inr_iff)
  }
  {
    assume "hasRoute (Router g) GET (relatedPath U b fk)"
    with new show "bindRelated U b m g fk =
        Inl (HandlersAlreadyRegistered GET (relatedPath U b fk))"
      by (simp add: bindRelated_panics)
  }
next
  assume run: "generateModelAPI U g m = Inr g1"
  show "list_all (\<lambda>fk. RelatedModel fk \<noteq> [] \<longrightarrow>
                  lookupBool (RegisteredPaths g1) (relatedPath U (basePath m) fk))
        (ForeignKeys m)"
    using bindForeignKeys_registers [OF generateModelAPI_Inr(6) [OF run]]
    by (simp add: list_all_iff)
  show "bindForeignKeys U (basePath m) m g1 (ForeignKeys m) = Inr g1"
    using run by (rule bindForeignKeys_again)
  show "generateModelAPI U g1 m = Inl (HandlersAlreadyRegistered GET (basePath m))"
    using run by (rule generateModelAPI_again)
  assume "tracked g"
  then show "tracked g1" using run by (rule tracked_generateModelAPI)
qed

theorem relationship_routes_bound_once_witness:
  "tracked (New emptyDB []) \<and>
   generateModelAPI sampleTables (New emptyDB []) postInfo = Inr postGenerated \<and>
   tracked postGenerated \<and>
   ForeignKeys postInfo = [fkID, fkUserID, fkUser] \<and>
   lookupBool (RegisteredPaths postGenerated) ''/api/posts/:id/user'' \<and>
   bindForeignKeys sampleTables ''/api/posts'' postInfo postGenerated (ForeignKeys postInfo) =
     Inr postGenerated \<and>
   generateModelAPI sampleTables postGenerated postInfo =
     Inl (HandlersAlreadyRegistered GET ''/api/posts'') \<and>
   RelatedModel fkUserID \<noteq> [] \<and>
   \<not> lookupBool (RegisteredPaths (New emptyDB [])) (relatedPath sampleTables ''/api/posts'' fkUserID) \<and>
   \<not> hasRoute (Router (New emptyDB [])) GET (relatedPath sampleTables ''/api/posts'' fkUserID) \<and>
   bindRelated sampleTables ''/api/posts'' postInfo (New emptyDB []) fkUserID =
     Inr ((New emptyDB [])
            \<lparr>Router := [(GET, ''/api/posts/:id/user'', RelatedHandler postInfo fkUserID)],
             RegisteredPaths := [''/api/posts/:id/user'' \<mapsto> True]\<rparr>) \<and>
   lookupBool (RegisteredPaths postGenerated) (relatedPath sampleTables ''/api/posts'' fkUser) \<and>
   bindRelated sampleTables ''/api/posts'' postInfo postGenerated fkUser = Inr postGenerated \<and>
   hasRoute (Router (postGenerated\<lparr>RegisteredPaths := Map.empty\<rparr>)) GET
     (relatedPath sampleTables ''/api/posts'' fkUser) \<and>
   bindRelated sampleTables ''/api/posts'' postInfo (postGenerated\<lparr>RegisteredPaths := Map.empty\<rparr>)
       fkUser =
     Inl (HandlersAlreadyRegistered GET ''/api/posts/:id/user'')"
proof -
  let ?g = "New emptyDB [] :: (example_type, unit) APIGenerator"
  let ?g' = "?g\<lparr>Router := [(GET, ''/api/posts/:id/user'', RelatedHandler postInfo fkUserID)],
               RegisteredPaths := [''/api/posts/:id/user'' \<mapsto> True]\<rparr>"
  let ?h = "postGenerated\<lparr>RegisteredPaths := Map.empty\<rparr>"
  note U = asciiTables_sampleTables
  have t: "tracked ?g"
    by (simp add: tracked_def New_sel relatedPaths_def)
  have run: "generateModelAPI sampleTables ?g postInfo = Inr postGenerated"
    using U by (rule generate_postInfo_New)
  have p: "relatedPath sampleTables ''/api/posts'' fkUserID = ''/api/posts/:id/user''"
    "relatedPath sampleTables ''/api/posts'' fkUser = ''/api/posts/:id/user''"
    by (simp_all add: relatedPath_User [OF U])
  have r: "RelatedModel fkUserID \<noteq> []" "RelatedModel fkUser \<noteq> []"
    by (simp_all add: RelatedModel_fks)
  have n: "\<not> lookupBool (RegisteredPaths ?g) (relatedPath sampleTables ''/api/posts'' fkUserID)"
    "\<not> hasRoute (Router ?g) GET (relatedPath sampleTables ''/api/posts'' fkUserID)"
    by (simp_all add: New_sel lookupBool_empty)
  have l: "lookupBool (RegisteredPaths postGenerated) (relatedPath sampleTables ''/api/posts'' fkUser)"
    by (simp add: p postGenerated_sel lookupBool_def)
  have nh: "\<not> lookupBool (RegisteredPaths ?h) (relatedPath sampleTables ''/api/posts'' fkUser)"
    "hasRoute (Router ?h) GET (relatedPath sampleTables ''/api/posts'' fkUser)"
    by (simp_all add: p postGenerated_sel lookupBool_empty)
  note a = relationship_routes_bound_once
             [where g = "?g" and U = sampleTables and b = "''/api/posts''" and fk = fkUserID and
                m = postInfo and ?g1.0 = postGenerated and g' = "?g'"]
  note b = relationship_routes_bound_once
             [where g = postGenerated and U = sampleTables and b = "''/api/posts''" and fk = fkUser and
                m = postInfo and ?g1.0 = postGenerated]
  note c = relationship_routes_bound_once
             [where g = "?h" and U = sampleTables and b = "''/api/posts''" and fk = fkUser and
                m = postInfo and ?g1.0 = postGenerated]
  from a t run have a1: "tracked postGenerated"
    and a2: "bindForeignKeys sampleTables (basePath postInfo) postInfo postGenerated
               (ForeignKeys postInfo) = Inr postGenerated"
    and a3: "generateModelAPI sampleTables postGenerated postInfo =
               Inl (HandlersAlreadyRegistered GET (basePath postInfo))"
    by simp_all
  have a4: "bindRelated sampleTables ''/api/posts'' postInfo ?g fkUserID = Inr ?g'"
    using bindRelated_binds [OF r(1) n, of postInfo] by (simp add: p New_sel)
  from b l have b1: "bindRelated sampleTables ''/api/posts'' postInfo postGenerated fkUser =
      Inr postGenerated"
    by simp
  from c r(2) nh have c1: "bindRelated sampleTables ''/api/posts'' postInfo ?h fkUser =
      Inl (HandlersAlreadyRegistered GET (relatedPath sampleTables ''/api/posts'' fkUser))"
    by simp
  have l': "lookupBool (RegisteredPaths postGenerated) ''/api/posts/:id/user''"
    using l by (simp add: p)
  show ?thesis
    using t run a1 a2 a3 a4 b1 c1 r(1) n l l' nh(2)
    by (simp add: p basePath_postInfo postInfo_sel New_sel)
qed

text \<open>
  The claim as stated fails: a second run for the same model is not a silent skip. After a
  run for \<^verbatim>\<open>Post\<close> the path of its relationship route is in \<open>RegisteredPaths\<close>,
  and the second run panics at \<^verbatim>\<open>GET /api/posts\<close> before it looks at any foreign
  key.
\<close>

theorem second_run_panics_counterexample:
  "generateModelAPI sampleTables (New emptyDB []) postInfo = Inr postGenerated \<and>
   lookupBool (RegisteredPaths postGenerated) ''/api/posts/:id/user'' \<and>
   generateModelAPI sampleTables postGenerated postInfo =
     Inl (HandlersAlreadyRegistered GET ''/api/posts'')"
  using generateModelAPI_bound [of postGenerated postInfo sampleTables]
  by (simp add: generate_postInfo_New [OF asciiTables_sampleTables] postGenerated_sel
        lookupBool_def basePath_postInfo bindCRUD_def)


lemma userInfo_sel:
  "ForeignKeys (userInfo b) = [fkID]"
  "PluralName (userInfo b) = ''users''"
  "ResourceName (userInfo b) = ''user''"
  "Type (userInfo b) = T_User"
  by (cases b; simp add: userInfo_def userInfo_eq1 userInfo_eq2)+

lemma basePath_userInfo: "basePath (userInfo b) = ''/api/users''"
  by (simp add: basePath_def userInfo_sel)

lemma generate_userInfo:
  assumes "\<forall>k \<in> set (routeKeys (Router g)). \<not> prefix ''/api/users'' (snd k)"
  shows "generateModelAPI U g (userInfo b) =
     Inr (g\<lparr>Router := Router g @ bindCRUD ''/api/users'' (userInfo b)\<rparr>)"
proof -
  have free: "\<not> hasRoute (Router g) meth (''/api/users'' @ rest)" for meth rest
    using assms by (auto simp: hasRoute_routeKeys)
  have f: "\<not> hasRoute (Router g) meth ''/api/users''"
    "\<not> hasRoute (Router g) meth ''/api/users/:id''" for meth
    using free [of meth "[]"] free [of meth "''/:id''"] by simp_all
  have "generateModelAPI U g (userInfo b) =
      bindForeignKeys U (basePath (userInfo b)) (userInfo b)
        (g\<lparr>Router := Router g @ bindCRUD (basePath (userInfo b)) (userInfo b)\<rparr>)
        (ForeignKeys (userInfo b))"
    by (rule generateModelAPI_fresh) (simp_all add: basePath_userInfo f)
  then show ?thesis
    by (simp add: userInfo_sel basePath_userInfo bindRelated_empty RelatedModel_fks)
qed

text \<open>
  Claim C10, as amended. The guard covers the relationship paths only: the five CRUD routes
  are requested on every run of \<^verbatim>\<open>generateModelAPI\<close>, whatever
  \<open>RegisteredPaths\<close> holds. A run that returns has bound the five of them, in order, and
  after them relationship routes only. A run on a router that holds one of them already does
  not return, it panics, at the list route when that is bound: so a second run for the same
  model panics at its first statement, and no run leaves a method and path bound twice.
  The relationship routes of a tracked generator keep distinct paths.
\<close>

theorem CRUD_routes_requested_on_every_run:
  "(generateModelAPI U g m = Inr g1 \<longrightarrow>
      (\<exists>rel. Router g1 = Router g @ bindCRUD (basePath m) m @ rel \<and> list_all isRelated rel) \<and>
      generateModelAPI U g1 m = Inl (HandlersAlreadyRegistered GET (basePath m)) \<and>
      (distinct (routeKeys (Router g)) \<longrightarrow> distinct (routeKeys (Router g1))) \<and>
      (tracked g \<longrightarrow> distinct (relatedPaths (Router g1)))) \<and>
   (hasRoute (Router g) GET (basePath m) \<longrightarrow>
      generateModelAPI U g m = Inl (HandlersAlreadyRegistered GET (basePath m))) \<and>
   (r \<in> set (bindCRUD (basePath m) m) \<and> hasRoute (Router g) (fst r) (fst (snd r)) \<longrightarrow>
      (\<exists>p. generateModelAPI U g m = Inl p))"
proof (intro conjI impI)
  assume "hasRoute (Router g) GET (basePath m)"
  then show "generateModelAPI U g m = Inl (HandlersAlreadyRegistered GET (basePath m))"
    by (rule generateModelAPI_bound)
next
  assume "r \<in> set (bindCRUD (basePath m) m) \<and> hasRoute (Router g) (fst r) (fst (snd r))"
  then show "\<exists>p. generateModelAPI U g m = Inl p"
    using generateModelAPI_CRUD_bound by blast
next
  assume run: "generateModelAPI U g m = Inr g1"
  show "\<exists>rel. Router g1 = Router g @ bindCRUD (basePath m) m @ rel \<and> list_all isRelated rel"
    using run by (rule Router_generateModelAPI)
  show "generateModelAPI U g1 m = Inl (HandlersAlreadyRegistered GET (basePath m))"
    using run by (rule generateModelAPI_again)
  {
    assume "distinct (routeKeys (Router g))"
    with run show "distinct (routeKeys (Router g1))" by (rule distinct_generateModelAPI)
  }
  {
    assume "tracked g"
    then have "tracked g1" using run by (rule tracked_generateModelAPI)
    then show "distinct (relatedPaths (Router g1))" by (simp add: tracked_def)
  }
qed

theorem CRUD_routes_requested_on_every_run_witness:
  "tracked ((New emptyDB [])\<lparr>RegisteredPaths := [''/api/posts'' \<mapsto> True]\<rparr>) \<and>
   distinct (routeKeys (Router ((New emptyDB [])\<lparr>RegisteredPaths := [''/api/posts'' \<mapsto> True]\<rparr>))) \<and>
   generateModelAPI sampleTables ((New emptyDB [])\<lparr>RegisteredPaths := [''/api/posts'' \<mapsto> True]\<rparr>)
       postInfo =
     Inr (postGenerated\<lparr>RegisteredPaths :=
            [''/api/posts'' \<mapsto> True, ''/api/posts/:id/user'' \<mapsto> True]\<rparr>) \<and>
   Router (postGenerated\<lparr>RegisteredPaths :=
            [''/api/posts'' \<mapsto> True, ''/api/posts/:id/user'' \<mapsto> True]\<rparr>) =
     bindCRUD ''/api/posts'' postInfo @
     [(GET, ''/api/posts/:id/user'', RelatedHandler postInfo fkUserID)] \<and>
   distinct (routeKeys (Router postGenerated)) \<and>
   distinct (relatedPaths (Router postGenerated)) \<and>
   (PUT, ''/api/posts/:id'', UpdateHandler postInfo) \<in> set (bindCRUD (basePath postInfo) postInfo) \<and>
   hasRoute (Router postGenerated) PUT ''/api/posts/:id'' \<and>
   hasRoute (Router postGenerated) GET (basePath postInfo) \<and>
   generateModelAPI sampleTables
       (postGenerated\<lparr>RegisteredPaths :=
          [''/api/posts'' \<mapsto> True, ''/api/posts/:id/user'' \<mapsto> True]\<rparr>) postInfo =
     Inl (HandlersAlreadyRegistered GET ''/api/posts'')"
proof -
  let ?g = "(New emptyDB [])\<lparr>RegisteredPaths := [''/api/posts'' \<mapsto> True]\<rparr> ::
              (example_type, unit) APIGenerator"
  let ?g1 = "postGenerated\<lparr>RegisteredPaths :=
               [''/api/posts'' \<mapsto> True, ''/api/posts/:id/user'' \<mapsto> True]\<rparr>"
  note U = asciiTables_sampleTables
  have t: "tracked ?g" "distinct (routeKeys (Router ?g))"
    by (simp_all add: tracked_def New_sel relatedPaths_def routeKeys_simps)
  have run: "generateModelAPI sampleTables ?g postInfo = Inr ?g1"
    by (subst generate_postInfo [OF U])
       (simp_all add: New_sel lookupBool_def routeKeys_simps, simp add: New_def postGenerated_def)
  have mem: "(PUT, ''/api/posts/:id'', UpdateHandler postInfo) \<in>
      set (bindCRUD (basePath postInfo) postInfo)"
    by (simp add: bindCRUD_def basePath_postInfo)
  have h: "hasRoute (Router ?g1) PUT ''/api/posts/:id''" "hasRoute (Router ?g1) GET (basePath postInfo)"
    by (simp_all add: postGenerated_sel bindCRUD_def basePath_postInfo)
  note a = CRUD_routes_requested_on_every_run
             [where g = "?g" and U = sampleTables and m = postInfo and ?g1.0 = "?g1" and
                r = "(PUT, ''/api/posts/:id'', UpdateHandler postInfo)"]
  note b = CRUD_routes_requested_on_every_run
             [where g = "?g1" and U = sampleTables and m = postInfo and ?g1.0 = "?g1" and
                r = "(PUT, ''/api/posts/:id'', UpdateHandler postInfo)"]
  from a run t have a1: "generateModelAPI sampleTables ?g1 postInfo =
        Inl (HandlersAlreadyRegistered GET (basePath postInfo))"
    and a2: "distinct (routeKeys (Router ?g1))"
    and a3: "distinct (relatedPaths (Router ?g1))"
    by simp_all
  from b h mem have b1: "generateModelAPI sampleTables ?g1 postInfo =
        Inl (HandlersAlreadyRegistered GET (basePath postInfo))"
    and b2: "\<exists>p. generateModelAPI sampleTables ?g1 postInfo = Inl p"
    by simp_all
  show ?thesis
    using t run a1 a2 a3 mem h b1
    by (simp add: basePath_postInfo postGenerated_sel)
qed

text \<open>
  The claim as stated fails: a second run for the same model produces no duplicate CRUD
  binding. After a run for \<^verbatim>\<open>User\<close> from a new generator the router holds the
  five routes of the model, and the second run panics at \<^verbatim>\<open>GET /api/users\<close>.
\<close>

theorem duplicate_CRUD_binding_counterexample:
  "generateModelAPI sampleTables (New emptyDB []) (userInfo False) =
     Inr ((New emptyDB [])\<lparr>Router := bindCRUD ''/api/users'' (userInfo False)\<rparr>) \<and>
   generateModelAPI sampleTables
       ((New emptyDB [])\<lparr>Router := bindCRUD ''/api/users'' (userInfo False)\<rparr>) (userInfo False) =
     Inl (HandlersAlreadyRegistered GET ''/api/users'')"
proof -
  let ?g1 = "(New emptyDB [])\<lparr>Router := bindCRUD ''/api/users'' (userInfo False)\<rparr> ::
               (example_type, unit) APIGenerator"
  have "generateModelAPI sampleTables (New emptyDB []) (userInfo False) = Inr ?g1"
    by (subst generate_userInfo) (simp_all add: New_sel routeKeys_simps)
  moreover have "generateModelAPI sampleTables ?g1 (userInfo False) =
      Inl (HandlersAlreadyRegistered GET (basePath (userInfo False)))"
    by (rule generateModelAPI_bound) (simp add: bindCRUD_def basePath_userInfo)
  ultimately show ?thesis by (simp add: basePath_userInfo)
qed

section \<open>The route table of the example\<close>

lemma postInfo_any: "buildModelInfo (exampleReflect b) T_Post ''post'' = postInfo"
  by (simp add: postInfo_def postInfo_eq1)

lemma register_both:
  "register U (exampleReflect b) T_Post ''post''
     (register U (exampleReflect b) T_User ''user'' (New db [])) =
   registered b db"
  by (simp add: register_def RegisterModel_def example_deref Let_def exampleReflect_sel
        postInfo_any userInfo_def New_def registered_def)

lemma registered_sel:
  "Router (registered b db) = []" "RegisteredPaths (registered b db) = Map.empty"
  "Models (registered b db) ''User'' = Some (userInfo b)"
  "Models (registered b db) ''Post'' = Some postInfo"
  "DB (registered b db) = db"
  by (simp_all add: registered_def)

lemma Setup_User_Post:
  assumes "asciiTables U"
  shows "SetupExampleAPI U b db [''User'', ''Post''] =
   Inr ((registered b db)
     \<lparr>Router := bindCRUD ''/api/users'' (userInfo b) @ bindCRUD ''/api/posts'' postInfo @
          [(GET, ''/api/posts/:id/user'', RelatedHandler postInfo fkUserID)],
      RegisteredPaths := [''/api/posts/:id/user'' \<mapsto> True]\<rparr>)"
proof -
  let ?g0 = "registered b db"
  let ?g1 = "?g0\<lparr>Router := bindCRUD ''/api/users'' (userInfo b)\<rparr>"
  have u: "generateModelAPI U ?g0 (userInfo b) = Inr ?g1"
    by (subst generate_userInfo) (simp_all add: registered_sel routeKeys_simps)
  have p: "generateModelAPI U ?g1 postInfo =
      Inr (?g1\<lparr>Router := Router ?g1 @ bindCRUD ''/api/posts'' postInfo @
                  [(GET, ''/api/posts/:id/user'', RelatedHandler postInfo fkUserID)],
               RegisteredPaths := (RegisteredPaths ?g1)(''/api/posts/:id/user'' \<mapsto> True)\<rparr>)"
    by (rule generate_postInfo [OF assms])
       (simp_all add: registered_sel lookupBool_empty routeKeys_simps bindCRUD_def)
  show ?thesis
    by (simp add: SetupExampleAPI_def register_both GenerateAPI_def registered_sel u p)
qed

lemma Setup_Post_User:
  assumes "asciiTables U"
  shows "SetupExampleAPI U b db [''Post'', ''User''] =
   Inr ((registered b db)
     \<lparr>Router := bindCRUD ''/api/posts'' postInfo @
          [(GET, ''/api/posts/:id/user'', RelatedHandler postInfo fkUserID)] @
          bindCRUD ''/api/users'' (userInfo b),
      RegisteredPaths := [''/api/posts/:id/user'' \<mapsto> True]\<rparr>)"
proof -
  let ?g0 = "registered b db"
  let ?g1 = "?g0\<lparr>Router := bindCRUD ''/api/posts'' postInfo @
                  [(GET, ''/api/posts/:id/user'', RelatedHandler postInfo fkUserID)],
               RegisteredPaths := [''/api/posts/:id/user'' \<mapsto> True]\<rparr>"
  have p: "generateModelAPI U ?g0 postInfo = Inr ?g1"
    by (subst generate_postInfo [OF assms])
       (simp_all add: registered_sel lookupBool_empty routeKeys_simps)
  have u: "generateModelAPI U ?g1 (userInfo b) =
      Inr (?g1\<lparr>Router := Router ?g1 @ bindCRUD ''/api/users'' (userInfo b)\<rparr>)"
    by (rule generate_userInfo) (simp add: routeKeys_simps bindCRUD_def)
  show ?thesis
    by (simp add: SetupExampleAPI_def register_both GenerateAPI_def registered_sel u p)
qed

lemma Setup_sel:
  assumes "SetupExampleAPI U b db keys = Inr g"
  shows "Models g ''User'' = Some (userInfo b)" "DB g = db"
  using Models_GenerateAPI [OF assms [unfolded SetupExampleAPI_def register_both]]
  by (simp_all add: registered_sel)


lemma ParseUint_7: "ParseUint ''7'' = Some 7"
  by (simp add: ParseUint_def isDigit_def)

lemma request_sel: "Param (request ident) ''id'' = ident" "ShouldBindJSON (request ident) i = Inr i"
  by (simp_all add: request_def)

lemma fk_sel:
  "RelationshipID fkUserID = ''UserID''" "RelationshipID fkUser = []"
  "RelatedField fkUserID = []" "RelatedField fkUser = ''ID''" "RelatedField fkID = []"
  by (simp_all add: fkUserID_def fkUser_def fkID_def)

lemma relatedHandler_ruleB:
  assumes "Param c ''id'' \<noteq> []" "First (DB g) (Type m) [] [ArgString (Param c ''id'')] = Inr parent"
    "Models g (RelatedModel fk) = Some rel" "RelationshipID fk \<noteq> []"
    "ParseUint (Param c ''id'') = Some n"
  shows "snd (relatedHandler g m fk c) =
    [CallFirst (Type m) [] [ArgString (Param c ''id'')],
     CallFind (Type rel) [(RelationshipID fk, [ArgUint64 n])]]"
  using assms by (simp add: relatedHandler_def Let_def split: sum.splits)

lemma relatedHandler_ruleA:
  assumes "Param c ''id'' \<noteq> []" "First (DB g) (Type m) [] [ArgString (Param c ''id'')] = Inr parent"
    "Models g (RelatedModel fk) = Some rel" "RelationshipID fk = []"
  shows "snd (relatedHandler g m fk c) =
    [CallFirst (Type m) [] [ArgString (Param c ''id'')],
     CallFind (Type rel) [(ResourceName m @ ''ID = ?'', [ArgString (Param c ''id'')])]]"
  using assms by (simp add: relatedHandler_def Let_def split: sum.splits)

lemma exampleGenerated_sel:
  "Router (exampleGenerated b db) =
     bindCRUD ''/api/users'' (userInfo b) @ bindCRUD ''/api/posts'' postInfo @
     [(GET, ''/api/posts/:id/user'', RelatedHandler postInfo fkUserID)]"
  "Models (exampleGenerated b db) ''User'' = Some (userInfo b)"
  "DB (exampleGenerated b db) = db"
  by (simp_all add: exampleGenerated_def registered_sel)

text \<open>
  Claim C2, as amended. Let the case tables be as Go's on the ASCII range. For the example's
  \<^verbatim>\<open>User\<close> and \<^verbatim>\<open>Post\<close>, registered as \<^verbatim>\<open>user\<close> and
  \<^verbatim>\<open>post\<close>, the set-up returns, and the route table is the five CRUD routes of each
  model and one relationship route, \<^verbatim>\<open>GET /api/posts/:id/user\<close>, in either order of
  generation, with or without the field \<^verbatim>\<open>Posts []Post\<close> in \<^verbatim>\<open>User\<close>: no route
  under \<^verbatim>\<open>/api/users/:id/\<close> is produced. The route is bound for the foreign key of the
  scalar \<^verbatim>\<open>UserID\<close> (rule B), which comes first; the key of the nested
  \<^verbatim>\<open>User\<close> (rule A) has the same path and is skipped. Serving it for an existing
  parent filters the users by the explicit column \<^verbatim>\<open>UserID\<close> and the parsed
  identifier; the handler of the rule A key would filter them by the parent's resource name
  followed by \<^verbatim>\<open>ID\<close>, that is \<^verbatim>\<open>postID = ?\<close>, with the raw identifier.
\<close>

theorem example_route_table:
  assumes "asciiTables U"
  shows
  "(\<exists>g. SetupExampleAPI U withPosts db [''User'', ''Post''] = Inr g \<and>
        Router g =
          bindCRUD ''/api/users'' (userInfo withPosts) @ bindCRUD ''/api/posts'' postInfo @
          [(GET, ''/api/posts/:id/user'', RelatedHandler postInfo fkUserID)]) \<and>
   (\<exists>g. SetupExampleAPI U withPosts db [''Post'', ''User''] = Inr g \<and>
        Router g =
          bindCRUD ''/api/posts'' postInfo @
          [(GET, ''/api/posts/:id/user'', RelatedHandler postInfo fkUserID)] @
          bindCRUD ''/api/users'' (userInfo withPosts)) \<and>
   ForeignKeys postInfo = [fkID, fkUserID, fkUser] \<and>
   relatedPath U (basePath postInfo) fkUser = relatedPath U (basePath postInfo) fkUserID \<and>
   (SetupExampleAPI U withPosts db keys = Inr g \<and>
    ident \<noteq> [] \<and> First db T_Post [] [ArgString ident] = Inr parent \<longrightarrow>
      (ParseUint ident = Some n \<longrightarrow>
         snd (relatedHandler g postInfo fkUserID (request ident)) =
           [CallFirst T_Post [] [ArgString ident],
            CallFind T_User [(''UserID'', [ArgUint64 n])]]) \<and>
      snd (relatedHandler g postInfo fkUser (request ident)) =
        [CallFirst T_Post [] [ArgString ident],
         CallFind T_User [(''postID = ?'', [ArgString ident])]])"
proof (intro conjI impI)
  show "\<exists>g. SetupExampleAPI U withPosts db [''User'', ''Post''] = Inr g \<and>
        Router g =
          bindCRUD ''/api/users'' (userInfo withPosts) @ bindCRUD ''/api/posts'' postInfo @
          [(GET, ''/api/posts/:id/user'', RelatedHandler postInfo fkUserID)]"
    by (simp add: Setup_User_Post [OF assms])
  show "\<exists>g. SetupExampleAPI U withPosts db [''Post'', ''User''] = Inr g \<and>
        Router g =
          bindCRUD ''/api/posts'' postInfo @
          [(GET, ''/api/posts/:id/user'', RelatedHandler postInfo fkUserID)] @
          bindCRUD ''/api/users'' (userInfo withPosts)"
    by (simp add: Setup_Post_User [OF assms])
  show "ForeignKeys postInfo = [fkID, fkUserID, fkUser]"
    by (simp add: postInfo_sel)
  show "relatedPath U (basePath postInfo) fkUser = relatedPath U (basePath postInfo) fkUserID"
    by (simp add: relatedPath_User [OF assms])
next
  assume a: "SetupExampleAPI U withPosts db keys = Inr g \<and>
    ident \<noteq> [] \<and> First db T_Post [] [ArgString ident] = Inr parent"
  then have ok: "SetupExampleAPI U withPosts db keys = Inr g" by simp
  have p: "Param (request ident) ''id'' \<noteq> []"
    "First (DB g) (Type postInfo) [] [ArgString (Param (request ident) ''id'')] = Inr parent"
    using a by (simp_all add: request_sel Setup_sel [OF ok] postInfo_sel)
  have m: "Models g (RelatedModel fkUserID) = Some (userInfo withPosts)"
    "Models g (RelatedModel fkUser) = Some (userInfo withPosts)"
    by (simp_all add: RelatedModel_fks Setup_sel [OF ok])
  show "snd (relatedHandler g postInfo fkUser (request ident)) =
        [CallFirst T_Post [] [ArgString ident],
         CallFind T_User [(''postID = ?'', [ArgString ident])]]"
    using relatedHandler_ruleA [OF p m(2)]
    by (simp add: fk_sel request_sel postInfo_sel userInfo_sel)
  assume n: "ParseUint ident = Some n"
  show "snd (relatedHandler g postInfo fkUserID (request ident)) =
           [CallFirst T_Post [] [ArgString ident],
            CallFind T_User [(''UserID'', [ArgUint64 n])]]"
    using relatedHandler_ruleB [OF p m(1), of n] n
    by (simp add: fk_sel request_sel postInfo_sel userInfo_sel)
qed

lemma fullDB_sel: "First fullDB t cl co = Inr ()" "Find fullDB t cl = Inr [()]"
  by (simp_all add: fullDB_def)

theorem example_route_table_witness:
  "asciiTables sampleTables \<and>
   SetupExampleAPI sampleTables False fullDB [''User'', ''Post''] =
     Inr (exampleGenerated False fullDB) \<and>
   Router (exampleGenerated False fullDB) =
     bindCRUD ''/api/users'' (userInfo False) @ bindCRUD ''/api/posts'' postInfo @
     [(GET, ''/api/posts/:id/user'', RelatedHandler postInfo fkUserID)] \<and>
   ''7'' \<noteq> [] \<and> First fullDB T_Post [] [ArgString ''7''] = Inr () \<and> ParseUint ''7'' = Some 7 \<and>
   snd (relatedHandler (exampleGenerated False fullDB) postInfo fkUserID (request ''7'')) =
     [CallFirst T_Post [] [ArgString ''7''], CallFind T_User [(''UserID'', [ArgUint64 7])]] \<and>
   snd (relatedHandler (exampleGenerated False fullDB) postInfo fkUser (request ''7'')) =
     [CallFirst T_Post [] [ArgString ''7''], CallFind T_User [(''postID = ?'', [ArgString ''7''])]]"
proof -
  have s: "SetupExampleAPI sampleTables False fullDB [''User'', ''Post''] =
      Inr (exampleGenerated False fullDB)"
    by (simp add: Setup_User_Post [OF asciiTables_sampleTables] exampleGenerated_def)
  show ?thesis
    using example_route_table [OF asciiTables_sampleTables, where withPosts = False and
            db = fullDB and ident = "''7''" and parent = "()" and n = 7 and
            keys = "[''User'', ''Post'']" and g = "exampleGenerated False fullDB"]
    by (simp add: s fullDB_sel ParseUint_7 asciiTables_sampleTables exampleGenerated_sel)
qed

text \<open>
  The claim as stated fails: the route is bound for the rule B key and filters by the column
  \<^verbatim>\<open>UserID\<close>; the rule A key filters by \<^verbatim>\<open>postID = ?\<close>; neither is a
  \<^verbatim>\<open>userID\<close> filter.
\<close>

theorem related_route_filter_counterexample:
  "SetupExampleAPI sampleTables False fullDB [''User'', ''Post''] =
     Inr (exampleGenerated False fullDB) \<and>
   filter isRelated (Router (exampleGenerated False fullDB)) =
     [(GET, ''/api/posts/:id/user'', RelatedHandler postInfo fkUserID)] \<and>
   relatedHandler (exampleGenerated False fullDB) postInfo fkUserID (request ''7'') =
     (JSON StatusOK (Instances [()]),
      [CallFirst T_Post [] [ArgString ''7''], CallFind T_User [(''UserID'', [ArgUint64 7])]]) \<and>
   relatedHandler (exampleGenerated False fullDB) postInfo fkUser (request ''7'') =
     (JSON StatusOK (Instances [()]),
      [CallFirst T_Post [] [ArgString ''7''], CallFind T_User [(''postID = ?'', [ArgString ''7''])]])"
proof -
  have s: "SetupExampleAPI sampleTables False fullDB [''User'', ''Post''] =
      Inr (exampleGenerated False fullDB)"
    by (simp add: Setup_User_Post [OF asciiTables_sampleTables] exampleGenerated_def)
  show ?thesis
    by (simp add: s exampleGenerated_sel bindCRUD_def relatedHandler_def request_sel
          fullDB_sel RelatedModel_fks fk_sel ParseUint_7 postInfo_sel userInfo_sel Let_def)
qed

section \<open>Foreign keys of rule B\<close>

text \<open>
  Claim C8. Every foreign key that model analysis produces should have \<open>RelatedField\<close> set
  to \<^verbatim>\<open>ID\<close>. Rule A sets it; rule B does not: on \<^verbatim>\<open>Post\<close> the keys of
  \<^verbatim>\<open>ID\<close> and \<^verbatim>\<open>UserID\<close> (rule B) have an empty \<open>RelatedField\<close>, the key of
  \<^verbatim>\<open>User\<close> (rule A) has \<^verbatim>\<open>ID\<close>.
\<close>

theorem rule_B_leaves_RelatedField_empty:
  "ForeignKeys (buildModelInfo (exampleReflect False) T_Post ''post'') = [fkID, fkUserID, fkUser] \<and>
   RelatedField fkID = [] \<and> RelatedField fkUserID = [] \<and> RelatedField fkUser = ''ID''"
  by (simp add: postInfo_eq1 fk_sel)

section \<open>Updating a record that does not exist\<close>

lemma updateHandler_calls_prefix:
  "\<exists>cl co i b. prefix (snd (updateHandler R g m c))
      [CallFirst (Type m) cl co, CallShouldBindJSON i, CallSave b]"
proof (cases "Param c ''id'' = [] \<or> TypeFieldByName R (Type m) ''ID'' = None")
  case True
  then have "snd (updateHandler R g m c) = []"
    by (auto simp: updateHandler_def Let_def)
  then show ?thesis by simp
next
  case False
  then obtain idField where f: "Param c ''id'' \<noteq> []" "TypeFieldByName R (Type m) ''ID'' = Some idField"
    by auto
  let ?cl = "fst (byID R idField (Param c ''id''))"
  let ?co = "snd (byID R idField (Param c ''id''))"
  show ?thesis
  proof (cases "First (DB g) (Type m) ?cl ?co")
    case (Inl err)
    then have "snd (updateHandler R g m c) = [CallFirst (Type m) ?cl ?co]"
      using f by (simp add: updateHandler_def Let_def)
    then show ?thesis by (auto simp: prefix_def)
  next
    case (Inr inst)
    show ?thesis
    proof (cases "ShouldBindJSON c inst")
      case (Inl msg)
      then have "snd (updateHandler R g m c) = [CallFirst (Type m) ?cl ?co, CallShouldBindJSON inst]"
        using f Inr by (simp add: updateHandler_def Let_def)
      then show ?thesis by (auto simp: prefix_def)
    next
      case (Inr bound)
      then have "snd (updateHandler R g m c) =
          [CallFirst (Type m) ?cl ?co, CallShouldBindJSON inst, CallSave bound]"
        using f \<open>First (DB g) (Type m) ?cl ?co = Inr inst\<close>
        by (simp add: updateHandler_def Let_def split: sum.splits)
      then show ?thesis by (metis prefix_order.order_refl)
    qed
  qed
qed

text \<open>
  Claim C6, as amended. For an UPDATE request with a non-empty path identifier, on a model
  whose type has a field \<^verbatim>\<open>ID\<close>: when the look-up reports that no record matches,
  the handler answers 404 and its only call is that look-up, so the body is not bound and
  \<^verbatim>\<open>Save\<close> is not invoked. An empty identifier is answered 400 before any call. In
  every run the calls are a prefix of look-up, bind, save, in this order.
\<close>

theorem update_of_missing_record_is_not_found:
  "(Param c ''id'' \<noteq> [] \<and> TypeFieldByName R (Type m) ''ID'' = Some idField \<and>
    First (DB g) (Type m) (fst (byID R idField (Param c ''id'')))
      (snd (byID R idField (Param c ''id''))) = Inl ErrRecordNotFound \<longrightarrow>
      updateHandler R g m c =
        (JSON StatusNotFound (ErrorBody ''Record not found''),
         [CallFirst (Type m) (fst (byID R idField (Param c ''id'')))
            (snd (byID R idField (Param c ''id'')))])) \<and>
   (Param c ''id'' = [] \<longrightarrow>
      updateHandler R g m c = (JSON StatusBadRequest (ErrorBody ''ID is required''), [])) \<and>
   (\<exists>cl co i b. prefix (snd (updateHandler R g m c))
      [CallFirst (Type m) cl co, CallShouldBindJSON i, CallSave b])"
  using updateHandler_calls_prefix [of R g m c]
  by (auto simp: updateHandler_def Let_def)

lemma emptyDB_sel: "First emptyDB t cl co = Inl ErrRecordNotFound"
  by (simp add: emptyDB_def)

lemma FieldByName_ID:
  "TypeFieldByName (exampleReflect b) T_Post ''ID'' =
     Some \<lparr>sfName = ''ID'', sfTag = [(''json'', ''id''), (''gorm'', ''primaryKey'')], sfType = T_uint\<rparr>"
  "TypeFieldByName (exampleReflect b) T_Tag ''ID'' = None"
  by (simp_all add: exampleReflect_sel postFields_def tagFields_def)

lemma tagInfo_Type: "Type tagInfo = T_Tag"
  by (simp add: tagInfo_def buildModelInfo_names)

theorem update_of_missing_record_is_not_found_witness:
  "Param (request ''7'') ''id'' \<noteq> [] \<and>
   First (DB (registered False emptyDB)) (Type postInfo) [] [ArgString ''7''] = Inl ErrRecordNotFound \<and>
   updateHandler (exampleReflect False) (registered False emptyDB) postInfo (request ''7'') =
     (JSON StatusNotFound (ErrorBody ''Record not found''), [CallFirst T_Post [] [ArgString ''7'']]) \<and>
   Param (request []) ''id'' = [] \<and>
   updateHandler (exampleReflect False) (registered False emptyDB) postInfo (request []) =
     (JSON StatusBadRequest (ErrorBody ''ID is required''), [])"
  using update_of_missing_record_is_not_found [of "request ''7''" "exampleReflect False" postInfo
          "\<lparr>sfName = ''ID'', sfTag = [(''json'', ''id''), (''gorm'', ''primaryKey'')], sfType = T_uint\<rparr>"
          "registered False emptyDB"]
        update_of_missing_record_is_not_found [of "request []" "exampleReflect False" postInfo _
          "registered False emptyDB"]
  by (simp add: request_sel postInfo_sel FieldByName_ID byID_def exampleReflect_sel(1)
        registered_sel emptyDB_sel)

text \<open>
  The claim as stated fails on a model without a field \<^verbatim>\<open>ID\<close>, where the handler
  panics although no record matches the identifier, and on an empty identifier, which is
  answered 400.
\<close>

theorem update_not_found_counterexample:
  "updateHandler (exampleReflect False) (registered False emptyDB) tagInfo (request ''7'') = (Panic, []) \<and>
   updateHandler (exampleReflect False) (registered False emptyDB) postInfo (request []) =
     (JSON StatusBadRequest (ErrorBody ''ID is required''), []) \<and>
   StatusBadRequest \<noteq> StatusNotFound"
  by (simp add: updateHandler_def request_sel tagInfo_Type FieldByName_ID StatusBadRequest_def
        StatusNotFound_def)

section \<open>Properties of the generated schemas\<close>


















section \<open>Create requests: schema against generated struct\<close>










end
